theory Spec2Isabelle
  imports Complex_Main "HOL-Library.Char_ord" "HOL-Library.List_Lexorder"
    "HOL-Library.Product_Lexorder" "HOL-Library.Multiset"
begin

section \<open>Python values and errors\<close>

text \<open>
  Cells of a results table are Python objects: integers (such as the ranks written by
  \<open>sortby\<close>), strings and floats (the scores). A float is a finite number, the negative
  zero, an infinity or the NaN; the embedding does not restrict the finite numbers to the
  values a double can hold.
\<close>

datatype pyfloat = Float rat | NegZero | PosInf | NegInf | NaN

datatype pyval = IntV int | StrV string | FloatV pyfloat

text \<open>Every exception the modelled code can raise is a value; \<open>Inl\<close> carries it.\<close>

datatype error =
    IndexError string
  | AssertionError string
  | TypeError
  | ValueError
  | KeyError
  | NameError string
  | ZeroDivisionError
  | URLError
  | IOError

definition digit_char :: "nat \<Rightarrow> char" where
  "digit_char d = char_of (48 + d)"

function str_nat :: "nat \<Rightarrow> string" where
  "str_nat n = (if n < 10 then [digit_char n] else str_nat (n div 10) @ [digit_char (n mod 10)])"
  by pat_completeness auto
termination
  by (relation "measure (\<lambda>n. n)") auto

declare str_nat.simps [simp del]

text \<open>\<open>str(i)\<close> of a Python int: decimal digits, with a leading minus sign below zero.\<close>

definition str_int :: "int \<Rightarrow> string" where
  "str_int i = (if i < 0 then CHR ''-'' # str_nat (nat (- i)) else str_nat (nat i))"

text \<open>
  \<open>str(value)\<close> of a cell. The text Python prints for a float is not part of the
  embedding and enters as the function \<open>float_str\<close>.
\<close>

fun py_str :: "(pyfloat \<Rightarrow> string) \<Rightarrow> pyval \<Rightarrow> string" where
  "py_str float_str (IntV i) = str_int i"
| "py_str float_str (StrV s) = s"
| "py_str float_str (FloatV f) = float_str f"

text \<open>\<open>sep.join(parts)\<close>.\<close>

fun join :: "string \<Rightarrow> string list \<Rightarrow> string" where
  "join sep [] = []"
| "join sep [p] = p"
| "join sep (p # q # ps) = p @ sep @ join sep (q # ps)"

text \<open>
  \<open>xs[i]\<close> on a Python list: a negative index counts from the end, and an index that
  still falls outside the list raises IndexError.
\<close>

definition py_index :: "'a list \<Rightarrow> int \<Rightarrow> error + 'a" where
  "py_index xs i =
     (if 0 \<le> i \<and> i < int (length xs) then Inr (xs ! nat i)
      else if i < 0 \<and> 0 \<le> i + int (length xs) then Inr (xs ! nat (i + int (length xs)))
      else Inl (IndexError ''list index out of range''))"

text \<open>\<open>range(n)\<close> and \<open>range(a, b)\<close>, as lists of ints.\<close>

definition py_range :: "int \<Rightarrow> int list" where
  "py_range n = map int [0 ..< nat n]"

definition py_range2 :: "int \<Rightarrow> int \<Rightarrow> int list" where
  "py_range2 a b = map (\<lambda>k. a + int k) [0 ..< nat (b - a)]"

text \<open>
  \<open>xs.insert(i, x)\<close>: a negative position counts from the end, and a position outside
  the list is clipped to its nearer end.
\<close>

definition py_insert :: "int \<Rightarrow> 'a \<Rightarrow> 'a list \<Rightarrow> 'a list" where
  "py_insert i x xs =
     (let n = int (length xs);
          j = (if i < 0 then max 0 (i + n) else min i n)
      in take (nat j) xs @ x # drop (nat j) xs)"

text \<open>A list comprehension whose body may raise: the first exception ends it.\<close>

fun collect :: "(error + 'a) list \<Rightarrow> error + 'a list" where
  "collect [] = Inr []"
| "collect (r # rs) =
     (case r of
        Inl e \<Rightarrow> Inl e
      | Inr x \<Rightarrow> (case collect rs of Inl e \<Rightarrow> Inl e | Inr xs \<Rightarrow> Inr (x # xs)))"

text \<open>
  A Python dict built from a sequence of pairs, kept in insertion order: a key seen again
  keeps its place and takes the later value.
\<close>

primrec dict_set :: "('k \<times> 'v) list \<Rightarrow> 'k \<Rightarrow> 'v \<Rightarrow> ('k \<times> 'v) list" where
  "dict_set [] k v = [(k, v)]"
| "dict_set (p # ps) k v = (if fst p = k then (k, v) # ps else p # dict_set ps k v)"

definition py_dict :: "('k \<times> 'v) list \<Rightarrow> ('k \<times> 'v) list" where
  "py_dict ps = fold (\<lambda>p d. dict_set d (fst p) (snd p)) ps []"

section \<open>The results table (utils.py, class \<open>LISA_Results\<close>)\<close>

record 'v results =
  results_headers :: "string list"
  results_rows :: "'v list list"

text \<open>
  \<open>_transpose_table(table) = [list(l) for l in list(zip(*table))]\<close>: \<open>zip\<close> stops at the
  shortest row, and \<open>zip()\<close> of no rows at all is empty.
\<close>

definition transpose_table :: "'v list list \<Rightarrow> 'v list list" where
  "transpose_table table =
     (case table of
        [] \<Rightarrow> []
      | r # rs \<Rightarrow> map (\<lambda>i. map (\<lambda>row. row ! i) table)
                    [0 ..< fold (\<lambda>row m. min (length row) m) rs (length r)])"

text \<open>The constructor \<open>LISA_Results(keys, columns)\<close>.\<close>

definition LISA_Results :: "string list \<Rightarrow> 'v list list \<Rightarrow> 'v results" where
  "LISA_Results keys columns =
     \<lparr>results_headers = keys, results_rows = transpose_table columns\<rparr>"

text \<open>
  \<open>fromdict(cls, **kwargs)\<close>, a classmethod called as \<open>LISA_Results.fromdict(**d)\<close>: the
  keyword dictionary is an insertion-ordered list of (name, column) pairs. The class is
  bound to the first parameter \<open>cls\<close>, so a column of that name is a second value for
  the same parameter and the call raises TypeError before the body runs.
\<close>

definition fromdict :: "(string \<times> 'v list) list \<Rightarrow> error + 'v results" where
  "fromdict kwargs =
     (if ''cls'' \<in> set (map fst kwargs) then Inl TypeError
      else Inr (LISA_Results (map fst kwargs) (map snd kwargs)))"

primrec first_index :: "'a list \<Rightarrow> 'a \<Rightarrow> nat option" where
  "first_index [] a = None"
| "first_index (x # xs) a =
     (if x = a then Some 0 else map_option Suc (first_index xs a))"

text \<open>
  \<open>get_colnum\<close>: \<open>np.argwhere(np.array(headers) == colname)[0][0]\<close> is the first position
  holding the name; with no such position the subscript raises IndexError, which is
  re-raised with the table's message. The comparison is NumPy's, on strings of a fixed
  width padded with NUL characters: NULs at the end of a string do not count.
\<close>

definition rstrip_nul :: "string \<Rightarrow> string" where
  "rstrip_nul s = rev (dropWhile (\<lambda>c. c = CHR 0x00) (rev s))"

definition get_colnum :: "'v results \<Rightarrow> string \<Rightarrow> error + nat" where
  "get_colnum t colname =
     (case first_index (map rstrip_nul (results_headers t)) (rstrip_nul colname) of
        Some c \<Rightarrow> Inr c
      | None \<Rightarrow> Inl (IndexError (''Column '' @ colname @ '' not in results table'')))"

definition len :: "'v results \<Rightarrow> nat" where
  "len t = length (results_rows t)"

definition todict :: "'v results \<Rightarrow> (string \<times> 'v list) list" where
  "todict t = py_dict (zip (results_headers t) (transpose_table (results_rows t)))"

text \<open>
  \<open>for row, value in zip(self.results_rows, data): row[colnum] = value\<close>. The rows past
  the end of \<open>data\<close> are not visited; a row too short for \<open>colnum\<close> raises IndexError
  and ends the loop, the rows before it staying changed. The result is the rows after the
  loop and the exception, if one was raised.
\<close>

fun assign_rows :: "nat \<Rightarrow> 'v list list \<Rightarrow> 'v list \<Rightarrow> 'v list list \<times> error option" where
  "assign_rows c [] data = ([], None)"
| "assign_rows c (row # rows) [] = (row # rows, None)"
| "assign_rows c (row # rows) (v # vs) =
     (if c < length row
      then (row[c := v] # fst (assign_rows c rows vs), snd (assign_rows c rows vs))
      else (row # rows, Some (IndexError ''list assignment index out of range'')))"

text \<open>
  \<open>update_column\<close> mutates the table in place. \<open>update_column_run\<close> is the table after the
  call together with the exception, if one was raised; \<open>update_column\<close> is the outcome as
  the caller of a call that returns or raises sees it.
\<close>

definition update_column_run :: "'v results \<Rightarrow> string \<Rightarrow> 'v list \<Rightarrow> 'v results \<times> error option" where
  "update_column_run t name data =
     (case get_colnum t name of
        Inl e \<Rightarrow> (t, Some e)
      | Inr colnum \<Rightarrow>
          (t\<lparr>results_rows := fst (assign_rows colnum (results_rows t) data)\<rparr>,
           snd (assign_rows colnum (results_rows t) data)))"

definition update_column :: "'v results \<Rightarrow> string \<Rightarrow> 'v list \<Rightarrow> error + 'v results" where
  "update_column t name data =
     (case snd (update_column_run t name data) of
        None \<Rightarrow> Inr (fst (update_column_run t name data))
      | Some e \<Rightarrow> Inl e)"

text \<open>
  \<open>for row, value in zip(self.results_rows, data): row.append(value)\<close>, and the same loop
  with \<open>row.insert(column_num, value)\<close>: again only as many rows as \<open>data\<close> has values.
\<close>

fun zip_rows :: "('v \<Rightarrow> 'v list \<Rightarrow> 'v list) \<Rightarrow> 'v list list \<Rightarrow> 'v list \<Rightarrow> 'v list list" where
  "zip_rows f [] data = []"
| "zip_rows f (row # rows) [] = row # rows"
| "zip_rows f (row # rows) (v # vs) = f v row # zip_rows f rows vs"

definition add_column :: "'v results \<Rightarrow> string \<Rightarrow> 'v list \<Rightarrow> int \<Rightarrow> error + 'v results" where
  "add_column t name data column_num =
     (if name \<in> set (results_headers t) then Inl (AssertionError ''Column already exists'')
      else if column_num = - 1
      then Inr \<lparr>results_headers = results_headers t @ [name],
               results_rows = zip_rows (\<lambda>v row. row @ [v]) (results_rows t) data\<rparr>
      else Inr \<lparr>results_headers = py_insert column_num name (results_headers t),
               results_rows = zip_rows (py_insert column_num) (results_rows t) data\<rparr>)"

text \<open>
  \<open>subset(rows)\<close> for an iterable of ints (a single int is wrapped into a one-element
  list by the source before this point).
\<close>

definition subset :: "'v results \<Rightarrow> int list \<Rightarrow> error + 'v results" where
  "subset t rows =
     (case collect (map (py_index (results_rows t)) rows) of
        Inl e \<Rightarrow> Inl e
      | Inr picked \<Rightarrow> Inr (LISA_Results (results_headers t) (transpose_table picked)))"

text \<open>
  \<open>to_tsv(top_n)\<close>. The headers are strings, so \<open>str\<close> leaves them as they are; the cells
  are rendered by \<open>py_str\<close>.
\<close>

definition tsv_lines :: "(pyfloat \<Rightarrow> string) \<Rightarrow> pyval results \<Rightarrow> string list" where
  "tsv_lines float_str out =
     map (join [CHR 0x09])
         (results_headers out # map (map (py_str float_str)) (results_rows out))"

definition to_tsv :: "(pyfloat \<Rightarrow> string) \<Rightarrow> pyval results \<Rightarrow> int \<Rightarrow> error + string" where
  "to_tsv float_str t top_n =
     (case subset t (py_range top_n) of
        Inl e \<Rightarrow> Inl e
      | Inr output_lines \<Rightarrow> Inr (join [CHR 0x0A] (tsv_lines float_str output_lines)))"

text \<open>
  The order of Python on cells. Numbers compare by value, an int with a float exactly,
  the two zeros as equal; \<open>num_key\<close> is the place of a number in that order, a pair so that
  the infinities lie below and above all finite numbers. The NaN has no place: every
  comparison with it is false. Strings compare lexicographically by character code.
  Comparing a number with a string raises TypeError.
\<close>

fun num_key :: "pyval \<Rightarrow> (int \<times> rat) option" where
  "num_key (IntV i) = Some (0, of_int i)"
| "num_key (FloatV (Float q)) = Some (0, q)"
| "num_key (FloatV NegZero) = Some (0, 0)"
| "num_key (FloatV PosInf) = Some (1, 0)"
| "num_key (FloatV NegInf) = Some (- 1, 0)"
| "num_key (FloatV NaN) = None"
| "num_key (StrV s) = None"

fun is_str :: "pyval \<Rightarrow> bool" where
  "is_str (StrV s) = True"
| "is_str (IntV i) = False"
| "is_str (FloatV f) = False"

fun str_of :: "pyval \<Rightarrow> string" where
  "str_of (StrV s) = s"
| "str_of (IntV i) = []"
| "str_of (FloatV f) = []"

text \<open>\<open>a <= b\<close> evaluating to true.\<close>

definition pyval_le :: "pyval \<Rightarrow> pyval \<Rightarrow> bool" where
  "pyval_le a b =
     (if is_str a \<and> is_str b then str_of a \<le> str_of b
      else case (num_key a, num_key b) of
             (Some x, Some y) \<Rightarrow> x \<le> y
           | _ \<Rightarrow> False)"

text \<open>
  \<open>sorted(rows, key = lambda col: col[key])\<close>, as the set of its possible outcomes. The
  keys of all rows are computed first (\<open>col[key]\<close> may raise IndexError). When the keys
  are all numbers other than the NaN, or all strings, the outcome is the rows in
  ascending key order, rows with equal keys keeping their order (Python's \<open>sorted\<close> is
  stable). With a NaN among the keys the comparisons are not those of an order, and which
  arrangement of the rows comes out depends on the steps of the sorting algorithm, which
  is not part of the embedding: every arrangement is a possible outcome. Keys of both
  kinds, numbers and strings, raise TypeError in every sort that orders its input; with a
  NaN among them the algorithm may also finish.
\<close>

definition sorted_by_key :: "int \<Rightarrow> pyval list list \<Rightarrow> (error + pyval list list) set" where
  "sorted_by_key key rows =
     (case collect (map (\<lambda>col. py_index col key) rows) of
        Inl e \<Rightarrow> {Inl e}
      | Inr keys \<Rightarrow>
          if list_all (\<lambda>k. num_key k \<noteq> None) keys
          then {Inr (map snd (sort_key (\<lambda>p. the (num_key (fst p))) (zip keys rows)))}
          else if list_all is_str keys
          then {Inr (map snd (sort_key (\<lambda>p. str_of (fst p)) (zip keys rows)))}
          else if list_all (\<lambda>k. \<not> is_str k) keys
          then {Inr rows' |rows'. mset rows' = mset rows}
          else if list_ex (\<lambda>k. k = FloatV NaN) keys
          then insert (Inl TypeError) {Inr rows' |rows'. mset rows' = mset rows}
          else {Inl TypeError})"

text \<open>The \<open>key\<close> argument of \<open>sortby\<close>: a column name (a \<open>str\<close>) or a column index.\<close>

datatype colkey = ByName string | ByIndex int

definition resolve_key :: "pyval results \<Rightarrow> colkey \<Rightarrow> error + int" where
  "resolve_key t key =
     (case key of
        ByIndex i \<Rightarrow> Inr i
      | ByName name \<Rightarrow> (case get_colnum t name of Inl e \<Rightarrow> Inl e | Inr c \<Rightarrow> Inr (int c)))"

text \<open>
  The \<open>try: update_column ... except IndexError: add_column\<close> of \<open>sortby\<close>. An IndexError
  out of \<open>update_column\<close> comes either from \<open>get_colnum\<close> (no Rank column: nothing was
  changed yet) or from a row too short for the Rank column; \<open>add_column\<close> then works on
  the table as the interrupted loop left it.
\<close>

definition add_ranks :: "pyval results \<Rightarrow> error + pyval results" where
  "add_ranks t =
     (let row_ranks = map IntV (py_range2 1 (int (len t) + 1))
      in case snd (update_column_run t ''Rank'' row_ranks) of
           None \<Rightarrow> Inr (fst (update_column_run t ''Rank'' row_ranks))
         | Some (IndexError msg) \<Rightarrow>
             add_column (fst (update_column_run t ''Rank'' row_ranks)) ''Rank'' row_ranks 0
         | Some e \<Rightarrow> Inl e)"

text \<open>\<open>sortby\<close>, as the set of its possible outcomes.\<close>

definition sortby :: "pyval results \<Rightarrow> colkey \<Rightarrow> bool \<Rightarrow> (error + pyval results) set" where
  "sortby t key add_rank =
     (case resolve_key t key of
        Inl e \<Rightarrow> {Inl e}
      | Inr k \<Rightarrow>
          (\<lambda>outcome. case outcome of
                        Inl e \<Rightarrow> Inl e
                      | Inr rows' \<Rightarrow>
                          if add_rank then add_ranks (t\<lparr>results_rows := rows'\<rparr>)
                          else Inr (t\<lparr>results_rows := rows'\<rparr>))
            ` sorted_by_key k (results_rows t))"

text \<open>The table invariant of the data model: one value per header in every row, no header twice.\<close>

definition table_inv :: "'v results \<Rightarrow> bool" where
  "table_inv t \<longleftrightarrow>
     list_all (\<lambda>row. length row = length (results_headers t)) (results_rows t)
     \<and> distinct (results_headers t)"

section \<open>The sparse assembler (utils.py, \<open>ragged_array_to_sparse_matrix\<close>)\<close>

text \<open>
  The function is a few lines over SciPy, so the embedding states what those library calls
  do, from their documentation. A sparse matrix is its shape, the element type of its
  data array, and its stored entries, a list of ((row, column), element) in column-major
  order as in the CSC layout.
\<close>

record ('e, 'd) sparse_matrix =
  nrows :: nat
  ncols :: nat
  dtype :: 'd
  stored :: "((nat \<times> nat) \<times> 'e) list"

text \<open>
  The arithmetic of NumPy is not part of the embedding: elements have a fixed width, so
  integer sums wrap around and floating-point sums round. It enters as four functions
  about which nothing is assumed. \<open>dtype_of\<close> is the element type \<open>np.array\<close> infers for a
  value column; \<open>cell_value data row_ind col_ind r c\<close> is the element a CSC matrix built
  from these coordinate triples stores at cell (r, c), that is the values given for the
  cell, converted to the element type and added up in it; \<open>result_type\<close> is the common
  element type of a list of blocks, and \<open>astype\<close> the conversion of an element to it.
\<close>

record ('v, 'e, 'd) numpy =
  dtype_of :: "'v list \<Rightarrow> 'd"
  cell_value :: "'v list \<Rightarrow> int list \<Rightarrow> int list \<Rightarrow> nat \<Rightarrow> nat \<Rightarrow> 'e"
  result_type :: "'d list \<Rightarrow> 'd"
  astype :: "'d \<Rightarrow> 'e \<Rightarrow> 'e"

text \<open>
  \<open>sparse.csc_matrix((data, (row_ind, col_ind)), shape = (M, N))\<close>. The three arrays must
  have one length and every index must lie inside the shape, else ValueError. The entries
  go through the coordinate format into CSC, where entries given for one cell are summed
  into a single stored entry and the rows of a column come out in ascending order. An
  entry whose value is zero stays stored.
\<close>

definition rows_in_column :: "int list \<Rightarrow> int list \<Rightarrow> nat \<Rightarrow> nat list" where
  "rows_in_column row_ind col_ind c =
     sort (remdups (map (\<lambda>p. nat (fst p)) (filter (\<lambda>p. nat (snd p) = c) (zip row_ind col_ind))))"

definition csc_matrix ::
  "('v, 'e, 'd) numpy \<Rightarrow> 'v list \<Rightarrow> int list \<Rightarrow> int list \<Rightarrow> nat \<times> nat
     \<Rightarrow> error + ('e, 'd) sparse_matrix" where
  "csc_matrix np data row_ind col_ind shape =
     (if length data \<noteq> length row_ind \<or> length data \<noteq> length col_ind then Inl ValueError
      else if list_ex (\<lambda>i. i < 0 \<or> int (fst shape) \<le> i) row_ind then Inl ValueError
      else if list_ex (\<lambda>j. j < 0 \<or> int (snd shape) \<le> j) col_ind then Inl ValueError
      else Inr \<lparr>nrows = fst shape, ncols = snd shape, dtype = dtype_of np data,
                stored = concat (map (\<lambda>c. map (\<lambda>r. ((r, c), cell_value np data row_ind col_ind r c))
                                              (rows_in_column row_ind col_ind c))
                                     [0 ..< snd shape])\<rparr>)"

text \<open>
  \<open>sparse.hstack(blocks)\<close>: the blocks side by side, each block's columns shifted past
  the columns before it, and every element converted to the common element type of the
  blocks. An empty list of blocks raises IndexError, blocks of different heights
  ValueError.
\<close>

fun place_blocks :: "nat \<Rightarrow> ('e, 'd) sparse_matrix list \<Rightarrow> ((nat \<times> nat) \<times> 'e) list" where
  "place_blocks off [] = []"
| "place_blocks off (b # bs) =
     map (\<lambda>e. ((fst (fst e), snd (fst e) + off), snd e)) (stored b) @ place_blocks (off + ncols b) bs"

definition hstack ::
  "('v, 'e, 'd) numpy \<Rightarrow> ('e, 'd) sparse_matrix list \<Rightarrow> error + ('e, 'd) sparse_matrix" where
  "hstack np blocks =
     (case blocks of
        [] \<Rightarrow> Inl (IndexError ''list index out of range'')
      | b # bs \<Rightarrow>
          if list_ex (\<lambda>b'. nrows b' \<noteq> nrows b) bs then Inl ValueError
          else Inr \<lparr>nrows = nrows b, ncols = sum_list (map ncols blocks),
                    dtype = result_type np (map dtype blocks),
                    stored = map (\<lambda>e. (fst e, astype np (result_type np (map dtype blocks)) (snd e)))
                                 (place_blocks 0 blocks)\<rparr>)"

text \<open>
  The function itself: one single-column CSC matrix per pair of \<open>zip(indices, values)\<close>,
  its column indices \<open>np.zeros(len(val_column))\<close>, then \<open>hstack\<close> of the list.
\<close>

definition ragged_array_to_sparse_matrix ::
  "('v, 'e, 'd) numpy \<Rightarrow> int list list \<Rightarrow> 'v list list \<Rightarrow> nat \<Rightarrow> error + ('e, 'd) sparse_matrix" where
  "ragged_array_to_sparse_matrix np indices values col_length =
     (case collect (map (\<lambda>p. csc_matrix np (snd p) (fst p) (replicate (length (snd p)) 0) (col_length, 1))
                        (zip indices values)) of
        Inl e \<Rightarrow> Inl e
      | Inr blocks \<Rightarrow> hstack np blocks)"


section \<open>The public-data interface (lisa.py, class \<open>LISA\<close>)\<close>

text \<open>
  The values read from the configuration files, which are not part of the sources: the
  comma-separated lists already split, the integers already converted.
\<close>

record config =
  cfg_assays :: "string list"
  cfg_num_datasets_selected :: int
  cfg_num_datasets_selected_anova :: int
  cfg_rp_map_styles :: "string list"

text \<open>
  A gene of a gene set with its location identifier and display symbol, and the two
  assay modules as the arguments \<open>_initialize_assays\<close> constructs them with (their
  classes live in another module; the metadata argument is left out).
\<close>

record gene =
  location :: string
  symbol :: string

datatype assay =
    PeakRP_Assay string bool
  | Accesibility_Assay string "bool list" int int int bool

datatype 'm rp_map_value = RpName string | RpMatrix 'm

text \<open>
  The attributes of a \<open>LISA\<close> object that the modelled methods read or write. \<open>log\<close> is
  the sequence of texts handed to \<open>self.log.append\<close>. \<open>factor_gene_mask\<close> is \<open>None\<close> while
  the attribute does not exist. \<open>isd_method\<close>, \<open>all_genes\<close>, \<open>factor_names\<close> (the column
  \<open>factor_metadata['factor']\<close>), \<open>rp_map_locs\<close> and the list of registered assays are set
  up by the base class.
\<close>

record 'm lisa =
  log :: "string list"
  isd_method :: string
  num_datasets_selected :: int
  num_datasets_selected_anova :: int
  cores :: int
  schedule_assays :: "string list"
  rp_map :: "'m rp_map_value"
  generate_rp_matrix :: bool
  all_genes :: "gene list"
  factor_names :: "string list"
  rp_map_locs :: "string list"
  factor_gene_mask :: "(bool list \<times> string list) option"
  assays :: "assay list"

text \<open>
  \<open>_set_cores\<close>, with \<open>multiprocessing.cpu_count()\<close> as an argument. Python's
  \<open>min(a, b, c)\<close> is the nested minimum.
\<close>

definition set_cores :: "int \<Rightarrow> int \<Rightarrow> int \<Rightarrow> error + int" where
  "set_cores cpu_count datasets cores_arg =
     (if \<not> (- 1 \<le> cores_arg) then Inl (AssertionError [])
      else let max_cores = cpu_count - 1;
               cores_used = (if cores_arg \<le> - 1 then max_cores else cores_arg)
           in Inr (min cores_used (min max_cores datasets)))"

text \<open>
  The message of the assay assertion. Its text ends in a backslash and \<open>{{}}\<close>, which
  \<open>str.format\<close> prints as a pair of braces: the format string has no replacement field,
  so the argument (the configured list) does not appear.
\<close>

definition invalid_assay_message :: string where
  "invalid_assay_message = ''An assay chosen by the user is not a valid choice: '' @ [CHR 0x5C] @ ''{}''"

definition cores_warning :: "int \<Rightarrow> int \<Rightarrow> string" where
  "cores_warning c datasets =
     ''WARNING: You'' @ [CHR 0x27] @ ''ve allocated '' @ str_int c @ '' cores with '' @ str_int datasets
     @ '' datasets selected.'' @ [CHR 0x0A]
     @ ''To ensure maximum speed, allocate as many cores as datasets selected.'' @ [CHR 0x0A]
     @ ''For better efficiency, make #datasets a multiple of #cores.''"

text \<open>
  \<open>LISA.__init__\<close> after the base-class constructor has returned: \<open>base\<close> is the object
  as the base class left it. The checks run in the order of the source; \<open>%\<close> by zero
  raises ZeroDivisionError.
\<close>

definition init :: "config \<Rightarrow> int \<Rightarrow> 'm lisa \<Rightarrow> int \<Rightarrow> string list \<Rightarrow> error + 'm lisa" where
  "init cfg cpu_count base cores_arg assays_arg =
     (if \<not> 0 < length assays_arg then Inl (AssertionError ''Must provide at least one assay to run.'')
      else if \<not> list_all (\<lambda>a. a \<in> set (cfg_assays cfg)) assays_arg
      then Inl (AssertionError invalid_assay_message)
      else
        let datasets = cfg_num_datasets_selected cfg;
            anova = cfg_num_datasets_selected_anova cfg
        in case set_cores cpu_count datasets cores_arg of
             Inl e \<Rightarrow> Inl e
           | Inr c \<Rightarrow>
               if \<not> datasets < anova
               then Inl (AssertionError ''Anova must select more datasets than the regression model'')
               else if \<not> (0 < anova \<and> 0 < datasets)
               then Inl (AssertionError ''Number of datasets selected must be positive'')
               else if \<not> anova < 500 then Inl (AssertionError [])
               else if \<not> datasets < 25 then Inl (AssertionError [])
               else if c = 0 then Inl ZeroDivisionError
               else if ''basic'' \<notin> set (cfg_rp_map_styles cfg)
               then Inl (AssertionError
                      (''RP map must be numpy/scipy.sparse array, or be one of provided maps: ''
                       @ join '','' (cfg_rp_map_styles cfg)))
               else Inr (base
                      \<lparr>log := (if datasets mod c \<noteq> 0 then log base @ [cores_warning c datasets]
                               else log base),
                       num_datasets_selected := datasets,
                       num_datasets_selected_anova := anova,
                       cores := c,
                       schedule_assays := sort (remdups assays_arg),
                       rp_map := RpName ''basic'',
                       generate_rp_matrix := False\<rparr>))"

text \<open>
  The names bound in the module namespace of lisa.py by its import statements and
  top-level assignments. An \<open>except\<close> clause evaluates its class expression when an
  exception reaches it; a name that is not bound raises NameError there.
\<close>

definition module_names :: "string list" where
  "module_names =
     [''os'', ''LISA_Core'', ''PACKAGE_PATH'', ''REQURED_DATASET_VERSION'', ''base_config_path'',
      ''assays'', ''LR_BinarySearch_SampleSelectionModel'', ''LR_ChromatinModel'', ''np'',
      ''sparse'', ''multiprocessing'', ''configparser'', ''CONFIG_PATH'', ''_config'', ''LISA'']"

text \<open>
  What \<open>_load_rp_map\<close> reaches outside the object: the path and download templates of the
  configuration, applied to a map name; \<open>fetch_from_cistrome\<close> of the base class, which
  either raises or leaves a new set of local files; and \<open>sparse.load_npz(path).tocsr()\<close>.
  The local files are the list of paths that exist.
\<close>

record 'm resources =
  rp_map_path :: "string \<Rightarrow> string"
  rp_map_download :: "string \<Rightarrow> string"
  fetch_from_cistrome :: "string \<Rightarrow> string \<Rightarrow> string list \<Rightarrow> error + string list"
  load_npz :: "string list \<Rightarrow> string \<Rightarrow> error + 'm"

definition fallback_warning :: string where
  "fallback_warning =
     ''Cannot connect to cistrome server, or cistrome server does not have the RP map requested. ''
     @ [CHR 0x0A] @ ''Defaulting to \"basic\" RP map instead.''"

definition load_and_store ::
  "'m resources \<Rightarrow> string list \<Rightarrow> 'm lisa \<Rightarrow> string \<Rightarrow> error + ('m \<times> 'm lisa \<times> string list)" where
  "load_and_store res files self path =
     (case load_npz res files path of
        Inl e \<Rightarrow> Inl e
      | Inr m \<Rightarrow> Inr (m, self\<lparr>rp_map := RpMatrix m\<rparr>, files))"

text \<open>
  \<open>_load_rp_map\<close>. The result is the returned map with the object and the local files
  after the call. The handler \<open>except error.URLError\<close> names \<open>error\<close>, which the module
  does not bind.
\<close>

definition load_rp_map ::
  "'m resources \<Rightarrow> string list \<Rightarrow> 'm lisa \<Rightarrow> error + ('m \<times> 'm lisa \<times> string list)" where
  "load_rp_map res files self =
     (case rp_map self of
        RpMatrix m \<Rightarrow> Inr (m, self, files)
      | RpName name \<Rightarrow>
          if rp_map_path res name \<notin> set files
          then (case fetch_from_cistrome res (rp_map_download res name) (rp_map_path res name) files of
                  Inr files' \<Rightarrow> load_and_store res files' self (rp_map_path res name)
                | Inl err \<Rightarrow>
                    if ''error'' \<notin> set module_names then Inl (NameError ''error'')
                    else if err = URLError
                    then load_and_store res files (self\<lparr>log := log self @ [fallback_warning]\<rparr>)
                           (rp_map_path res ''basic'')
                    else Inl err)
          else load_and_store res files self (rp_map_path res name))"

text \<open>
  Modelled from the spec: \<open>match_user_provided_genes\<close> of the gene catalog, whose code is
  not among the sources. The spec has it match the factor names against the canonical
  gene set, take locations and symbols from the canonical genes, and leave out, silently,
  a name that matches no canonical gene. \<open>matches\<close> is the catalog's matching relation
  between a name and a canonical gene.
\<close>

definition match_user_provided_genes ::
  "(string \<Rightarrow> gene \<Rightarrow> bool) \<Rightarrow> gene list \<Rightarrow> string list \<Rightarrow> gene list" where
  "match_user_provided_genes matches catalog names =
     concat (map (\<lambda>name. case find (matches name) catalog of None \<Rightarrow> [] | Some g \<Rightarrow> [g]) names)"

text \<open>\<open>d[k]\<close> on a dict: KeyError when the key is missing.\<close>

definition dict_get :: "('k \<times> 'v) list \<Rightarrow> 'k \<Rightarrow> error + 'v" where
  "dict_get d k = (case map_of d k of None \<Rightarrow> Inl KeyError | Some v \<Rightarrow> Inr v)"

text \<open>
  \<open>_get_factor_gene_mask\<close>: \<open>np.isin\<close> marks the reference rows whose location is a
  location of a matched gene, and the keys are the symbols of the marked rows, looked up
  in \<open>dict(zip(locations, symbols))\<close>.
\<close>

definition get_factor_gene_mask ::
  "(string \<Rightarrow> gene \<Rightarrow> bool) \<Rightarrow> 'm lisa \<Rightarrow> error + ((bool list \<times> string list) \<times> 'm lisa)" where
  "get_factor_gene_mask matches self =
     (let factor_genes = match_user_provided_genes matches (all_genes self) (factor_names self);
          loc_symbol_dict = py_dict (zip (map location factor_genes) (map symbol factor_genes));
          mask = map (\<lambda>loc. loc \<in> set (map location factor_genes)) (rp_map_locs self)
      in case collect (map (dict_get loc_symbol_dict)
                           (map fst (filter snd (zip (rp_map_locs self) mask)))) of
           Inl e \<Rightarrow> Inl e
         | Inr keys \<Rightarrow> Inr ((mask, keys), self\<lparr>factor_gene_mask := Some (mask, keys)\<rparr>))"

text \<open>
  The loop of \<open>_initialize_assays\<close> over the schedule. \<open>add_assay\<close> of the base class
  appends the constructed assay to the object's list.
\<close>

fun add_scheduled :: "'m lisa \<Rightarrow> string list \<Rightarrow> error + 'm lisa" where
  "add_scheduled self [] = Inr self"
| "add_scheduled self (a # rest) =
     (if a = ''Direct''
      then add_scheduled
             (self\<lparr>assays := assays self @ [PeakRP_Assay (isd_method self) (generate_rp_matrix self)]\<rparr>)
             rest
      else if a = ''DNase'' \<or> a = ''H3K27ac''
      then add_scheduled
             (self\<lparr>assays := assays self @
                 [Accesibility_Assay a (case factor_gene_mask self of None \<Rightarrow> [] | Some mk \<Rightarrow> fst mk)
                    (num_datasets_selected_anova self) (num_datasets_selected self) (cores self)
                    (generate_rp_matrix self)]\<rparr>)
             rest
      else Inl (AssertionError (''Invalid assay encountered: '' @ a)))"

definition initialize_assays :: "(string \<Rightarrow> gene \<Rightarrow> bool) \<Rightarrow> 'm lisa \<Rightarrow> error + 'm lisa" where
  "initialize_assays matches self =
     (case factor_gene_mask self of
        Some mk \<Rightarrow> add_scheduled self (schedule_assays self)
      | None \<Rightarrow>
          (case get_factor_gene_mask matches self of
             Inl e \<Rightarrow> Inl e
           | Inr r \<Rightarrow> add_scheduled (snd r) (schedule_assays (snd r))))"

section \<open>Example inputs\<close>

text \<open>
  A configuration with the three assay kinds, ten datasets for the regression and two
  hundred for the ANOVA step; and an object as the base class hands it over, with a
  catalog of three genes, two factor names of which one matches no gene, and four
  reference rows.
\<close>

definition example_config :: config where
  "example_config =
     \<lparr>cfg_assays = [''Direct'', ''H3K27ac'', ''DNase''],
      cfg_num_datasets_selected = 10,
      cfg_num_datasets_selected_anova = 200,
      cfg_rp_map_styles = [''basic'', ''enhanced'']\<rparr>"

definition example_base :: "unit lisa" where
  "example_base =
     \<lparr>log = [], isd_method = ''chipseq'', num_datasets_selected = 0,
      num_datasets_selected_anova = 0, cores = 0, schedule_assays = [],
      rp_map = RpName [], generate_rp_matrix = False,
      all_genes = [\<lparr>location = ''chr1:100'', symbol = ''GATA1''\<rparr>,
                   \<lparr>location = ''chr2:200'', symbol = ''SPI1''\<rparr>,
                   \<lparr>location = ''chr3:300'', symbol = ''MYC''\<rparr>],
      factor_names = [''SPI1'', ''NOSUCHGENE'', ''GATA1''],
      rp_map_locs = [''chr1:100'', ''chr3:300'', ''chr9:900'', ''chr2:200''],
      factor_gene_mask = None, assays = []\<rparr>"

definition by_symbol :: "string \<Rightarrow> gene \<Rightarrow> bool" where
  "by_symbol name g \<longleftrightarrow> symbol g = name"

text \<open>
  NumPy's arithmetic on integers small enough that no sum leaves the 64-bit range: one
  element type, elements added exactly, no conversion.
\<close>

definition small_int_arith :: "(int, int, unit) numpy" where
  "small_int_arith =
     \<lparr>dtype_of = (\<lambda>data. ()),
      cell_value = (\<lambda>data row_ind col_ind r c.
         sum_list (map snd (filter (\<lambda>p. nat (fst (fst p)) = r \<and> nat (snd (fst p)) = c)
                                    (zip (zip row_ind col_ind) data)))),
      result_type = (\<lambda>ds. ()),
      astype = (\<lambda>d e. e)\<rparr>"

section \<open>Transposition and the dictionary round trip\<close>

lemma fold_min_uniform:
  "\<forall>r\<in>set rs. length r = n \<Longrightarrow> fold (\<lambda>row m. min (length row) m) rs n = n"
  by (induction rs) auto

lemma transpose_table_uniform:
  assumes "table \<noteq> []" and "\<forall>r\<in>set table. length r = n"
  shows "transpose_table table = map (\<lambda>i. map (\<lambda>row. row ! i) table) [0 ..< n]"
proof -
  obtain r rs where t: "table = r # rs" using assms(1) by (cases table) auto
  have "length r = n" and "\<forall>x\<in>set rs. length x = n" using assms(2) t by auto
  then have "fold (\<lambda>row m. min (length row) m) rs (length r) = n"
    by (simp add: fold_min_uniform)
  then show ?thesis unfolding transpose_table_def t by simp
qed

lemma transpose_table_twice:
  assumes "\<forall>r\<in>set table. length r = n" and "0 < n"
  shows "transpose_table (transpose_table table) = table"
proof (cases "table = []")
  case True
  then show ?thesis by (simp add: transpose_table_def)
next
  case False
  let ?T = "map (\<lambda>i. map (\<lambda>row. row ! i) table) [0 ..< n]"
  have T: "transpose_table table = ?T"
    using False assms(1) by (rule transpose_table_uniform)
  have ne: "?T \<noteq> []" using assms(2) by simp
  have len: "\<forall>c\<in>set ?T. length c = length table" by auto
  have "transpose_table ?T = map (\<lambda>i. map (\<lambda>row. row ! i) ?T) [0 ..< length table]"
    using ne len by (rule transpose_table_uniform)
  also have "\<dots> = table"
  proof (rule nth_equalityI)
    show "length (map (\<lambda>i. map (\<lambda>row. row ! i) ?T) [0 ..< length table]) = length table"
      by simp
  next
    fix i assume "i < length (map (\<lambda>i. map (\<lambda>row. row ! i) ?T) [0 ..< length table])"
    then have i: "i < length table" by simp
    then have li: "length (table ! i) = n" using assms(1) by auto
    have "map (\<lambda>row. row ! i) ?T = map (\<lambda>j. table ! i ! j) [0 ..< n]"
      using i by simp
    also have "\<dots> = table ! i"
      using li by (metis map_nth)
    finally show "map (\<lambda>i. map (\<lambda>row. row ! i) ?T) [0 ..< length table] ! i = table ! i"
      using i by simp
  qed
  finally show ?thesis using T by simp
qed

lemma fold_dict_set_distinct:
  "distinct (map fst (acc @ ps)) \<Longrightarrow> fold (\<lambda>p d. dict_set d (fst p) (snd p)) ps acc = acc @ ps"
proof (induction ps arbitrary: acc)
  case Nil
  then show ?case by simp
next
  case (Cons p ps)
  have fresh: "fst p \<notin> fst ` set acc" using Cons.prems by auto
  have "dict_set acc (fst p) (snd p) = acc @ [p]" using fresh
    by (induction acc) auto
  moreover have "distinct (map fst ((acc @ [p]) @ ps))" using Cons.prems by simp
  ultimately show ?case using Cons.IH [of "acc @ [p]"] by simp
qed

lemma py_dict_distinct: "distinct (map fst ps) \<Longrightarrow> py_dict ps = ps"
  unfolding py_dict_def using fold_dict_set_distinct [of "[]" ps] by simp

text \<open>
  C10 (as amended). For every keyword dictionary with distinct column names, none of them
  \<open>cls\<close>, whose columns are non-empty lists of one common length, \<open>fromdict\<close> returns a
  table and \<open>todict\<close> of that table gives the dictionary back, entry for entry and in the
  same order.
\<close>

theorem fromdict_todict_roundtrip:
  assumes "distinct (map fst d)" and "''cls'' \<notin> set (map fst d)"
    and "\<forall>c\<in>set (map snd d). length c = n" and "0 < n"
  shows "\<exists>t. fromdict d = Inr t \<and> todict t = d"
proof -
  have run: "fromdict d = Inr (LISA_Results (map fst d) (map snd d))"
    using assms(2) by (simp add: fromdict_def)
  have "transpose_table (transpose_table (map snd d)) = map snd d"
    using assms(3,4) by (rule transpose_table_twice)
  then have "todict (LISA_Results (map fst d) (map snd d)) = py_dict (zip (map fst d) (map snd d))"
    by (simp add: todict_def LISA_Results_def)
  also have "\<dots> = py_dict d" by (simp add: zip_map_fst_snd)
  finally have "todict (LISA_Results (map fst d) (map snd d)) = d"
    using assms(1) by (simp add: py_dict_distinct)
  with run show ?thesis by blast
qed

theorem fromdict_todict_roundtrip_witness:
  "\<exists>t. fromdict [(''factor'', [StrV ''GATA1'', StrV ''SPI1'']), (''p'', [IntV 1, IntV 2])] = Inr t
      \<and> todict t = [(''factor'', [StrV ''GATA1'', StrV ''SPI1'']), (''p'', [IntV 1, IntV 2])]"
  using fromdict_todict_roundtrip
    [of "[(''factor'', [StrV ''GATA1'', StrV ''SPI1'']), (''p'', [IntV 1, IntV 2])]" 2]
  by simp

text \<open>
  The claim as written covers every column name. A dictionary with a column named
  \<open>cls\<close> never reaches the constructor.
\<close>

theorem fromdict_cls_counterexample:
  "fromdict [(''cls'', [IntV 1, IntV 2])] = Inl TypeError"
  by (simp add: fromdict_def)

section \<open>Column operations, sorting and ranking\<close>

lemma length_py_insert: "length (py_insert i x xs) = Suc (length xs)"
  by (simp add: py_insert_def Let_def)

lemma set_py_insert: "set (py_insert i x xs) = insert x (set xs)"
proof -
  have "set (take n xs) \<union> set (drop n xs) = set xs" for n
    by (metis append_take_drop_id set_append)
  then show ?thesis by (auto simp: py_insert_def Let_def)
qed

lemma distinct_py_insert: "distinct xs \<Longrightarrow> x \<notin> set xs \<Longrightarrow> distinct (py_insert i x xs)"
proof -
  assume d: "distinct xs" and x: "x \<notin> set xs"
  have "distinct (take n xs @ x # drop n xs)" for n
  proof -
    have "distinct (take n xs) \<and> distinct (drop n xs) \<and> set (take n xs) \<inter> set (drop n xs) = {}"
      using d by (metis append_take_drop_id distinct_append)
    moreover have "x \<notin> set (take n xs)" "x \<notin> set (drop n xs)"
      using x by (auto dest: in_set_takeD in_set_dropD)
    ultimately show ?thesis by auto
  qed
  then show ?thesis by (simp add: py_insert_def Let_def)
qed

lemma py_insert_zero: "py_insert 0 x xs = x # xs"
  by (simp add: py_insert_def Let_def)

lemma zip_rows_widths:
  "\<forall>v row. length (f v row) = Suc (length row) \<Longrightarrow> length rows \<le> length data
   \<Longrightarrow> list_all (\<lambda>r. length r = n) rows
   \<Longrightarrow> list_all (\<lambda>r. length r = Suc n) (zip_rows f rows data)"
  by (induction f rows data rule: zip_rows.induct) auto

lemma assign_rows_length: "length (fst (assign_rows c rows data)) = length rows"
  by (induction c rows data rule: assign_rows.induct) auto

lemma assign_rows_widths:
  "list_all (\<lambda>r. length r = n) rows \<Longrightarrow> list_all (\<lambda>r. length r = n) (fst (assign_rows c rows data))"
  by (induction c rows data rule: assign_rows.induct) auto

lemma assign_rows_raises:
  "snd (assign_rows c rows data) = Some e \<Longrightarrow> e = IndexError ''list assignment index out of range''"
  by (induction c rows data rule: assign_rows.induct) (auto split: if_splits)

lemma assign_rows_returns:
  "\<forall>r\<in>set rows. c < length r \<Longrightarrow> snd (assign_rows c rows data) = None"
  by (induction c rows data rule: assign_rows.induct) auto

lemma assign_rows_full:
  "snd (assign_rows c rows data) = None \<Longrightarrow> length rows \<le> length data \<Longrightarrow>
   (\<forall>j<length rows. c < length (rows ! j) \<and> fst (assign_rows c rows data) ! j = (rows ! j)[c := data ! j])"
  by (induction c rows data rule: assign_rows.induct)
     (auto split: if_splits simp: nth_Cons split: nat.splits)

lemma zip_rows_length: "length (zip_rows f rows data) = length rows"
  by (induction f rows data rule: zip_rows.induct) auto

lemma add_column_inv:
  assumes "table_inv t" and "add_column t name data pos = Inr t'"
    and "length (results_rows t) \<le> length data"
  shows "table_inv t'"
proof -
  have fresh: "name \<notin> set (results_headers t)"
    using assms(2) by (auto simp: add_column_def split: if_splits)
  have w: "list_all (\<lambda>r. length r = length (results_headers t)) (results_rows t)"
    and d: "distinct (results_headers t)"
    using assms(1) by (auto simp: table_inv_def)
  show ?thesis
  proof (cases "pos = - 1")
    case True
    then have t': "t' = \<lparr>results_headers = results_headers t @ [name],
        results_rows = zip_rows (\<lambda>v row. row @ [v]) (results_rows t) data\<rparr>"
      using assms(2) fresh by (simp add: add_column_def)
    have "list_all (\<lambda>r. length r = Suc (length (results_headers t)))
            (zip_rows (\<lambda>v row. row @ [v]) (results_rows t) data)"
      by (rule zip_rows_widths) (use assms(3) w in auto)
    then show ?thesis using d fresh by (simp add: table_inv_def t')
  next
    case False
    then have t': "t' = \<lparr>results_headers = py_insert pos name (results_headers t),
        results_rows = zip_rows (py_insert pos) (results_rows t) data\<rparr>"
      using assms(2) fresh by (simp add: add_column_def)
    have "list_all (\<lambda>r. length r = Suc (length (results_headers t)))
            (zip_rows (py_insert pos) (results_rows t) data)"
      by (rule zip_rows_widths) (use assms(3) w in \<open>auto simp: length_py_insert\<close>)
    then show ?thesis using d fresh
      by (simp add: table_inv_def t' length_py_insert distinct_py_insert)
  qed
qed


lemma update_column_inv:
  assumes "table_inv t" and "update_column t name data = Inr t'"
  shows "table_inv t'"
proof -
  obtain c where t': "t' = t\<lparr>results_rows := fst (assign_rows c (results_rows t) data)\<rparr>"
    using assms(2)
    by (auto simp: update_column_def update_column_run_def split: sum.splits option.splits)
  have "list_all (\<lambda>r. length r = length (results_headers t))
          (fst (assign_rows c (results_rows t) data))"
    using assms(1) by (auto simp: table_inv_def intro: assign_rows_widths)
  then show ?thesis using assms(1) by (simp add: table_inv_def t')
qed

lemma collect_map_Inr:
  "collect (map f xs) = Inr ys \<Longrightarrow> length ys = length xs \<and> (\<forall>i<length xs. f (xs ! i) = Inr (ys ! i))"
proof (induction xs arbitrary: ys)
  case Nil
  then show ?case by simp
next
  case (Cons x xs)
  then obtain y ys' where y: "f x = Inr y" and c: "collect (map f xs) = Inr ys'" and ys: "ys = y # ys'"
    by (auto split: sum.splits)
  from Cons.IH [OF c] show ?case using y ys by (auto simp: nth_Cons split: nat.splits)
qed

lemma collect_map_keys:
  assumes "collect (map f xs) = Inr ys"
  shows "zip ys xs = map (\<lambda>x. (projr (f x), x)) xs"
proof (rule nth_equalityI)
  show "length (zip ys xs) = length (map (\<lambda>x. (projr (f x), x)) xs)"
    using collect_map_Inr [OF assms] by simp
next
  fix i assume "i < length (zip ys xs)"
  then show "zip ys xs ! i = map (\<lambda>x. (projr (f x), x)) xs ! i"
    using collect_map_Inr [OF assms] by simp
qed

lemma collect_all_Inr: "\<forall>x\<in>set xs. f x = Inr (g x) \<Longrightarrow> collect (map f xs) = Inr (map g xs)"
  by (induction xs) auto

lemma insort_key_map:
  "insort_key f (h x) (map h xs) = map h (insort_key (\<lambda>y. f (h y)) x xs)"
  by (induction xs) auto

lemma sort_key_map: "sort_key f (map h xs) = map h (sort_key (\<lambda>y. f (h y)) xs)"
  by (induction xs) (auto simp: insort_key_map)

lemma sort_key_paired:
  "map snd (sort_key (\<lambda>p. f (fst p)) (map (\<lambda>x. (g x, x)) xs)) = sort_key (\<lambda>x. f (g x)) xs"
  by (simp add: sort_key_map comp_def)



lemma stable_sort_generic:
  fixes proj :: "pyval \<Rightarrow> 'a::linorder"
  assumes K: "\<forall>r\<in>set rows. g r \<in> K"
    and le: "\<forall>x\<in>K. \<forall>y\<in>K. pyval_le x y = (proj x \<le> proj y)"
    and out: "\<forall>x\<in>K. \<forall>v. v \<notin> K \<longrightarrow> \<not> (pyval_le x v \<and> pyval_le v x)"
  shows "sorted_wrt (\<lambda>a b. pyval_le (g a) (g b)) (sort_key (\<lambda>r. proj (g r)) rows)"
    and "filter (\<lambda>r. pyval_le (g r) v \<and> pyval_le v (g r)) (sort_key (\<lambda>r. proj (g r)) rows)
           = filter (\<lambda>r. pyval_le (g r) v \<and> pyval_le v (g r)) rows"
proof -
  let ?rows' = "sort_key (\<lambda>r. proj (g r)) rows"
  have "sorted (map (\<lambda>r. proj (g r)) ?rows')" by (rule sorted_sort_key)
  then have "sorted_wrt (\<lambda>a b. proj (g a) \<le> proj (g b)) ?rows'"
    by (simp add: sorted_wrt_map)
  then show "sorted_wrt (\<lambda>a b. pyval_le (g a) (g b)) ?rows'"
    by (rule sorted_wrt_mono_rel [rotated]) (use K le in auto)
  show "filter (\<lambda>r. pyval_le (g r) v \<and> pyval_le v (g r)) ?rows'
          = filter (\<lambda>r. pyval_le (g r) v \<and> pyval_le v (g r)) rows"
  proof (cases "v \<in> K")
    case True
    have eq: "\<And>r. r \<in> set rows \<Longrightarrow>
        (pyval_le (g r) v \<and> pyval_le v (g r)) = (proj (g r) = proj v)"
      using K le True by (auto simp: eq_iff)
    have "filter (\<lambda>r. pyval_le (g r) v \<and> pyval_le v (g r)) ?rows'
            = filter (\<lambda>r. proj (g r) = proj v) ?rows'"
      by (rule filter_cong) (use eq in auto)
    also have "\<dots> = filter (\<lambda>r. proj (g r) = proj v) rows"
      by (rule sort_key_stable)
    also have "\<dots> = filter (\<lambda>r. pyval_le (g r) v \<and> pyval_le v (g r)) rows"
      by (rule filter_cong) (use eq in auto)
    finally show ?thesis .
  next
    case False
    then have "\<And>r. r \<in> set rows \<Longrightarrow> \<not> (pyval_le (g r) v \<and> pyval_le v (g r))"
      using K out by blast
    then have "filter (\<lambda>r. pyval_le (g r) v \<and> pyval_le v (g r)) ?rows' = []"
      "filter (\<lambda>r. pyval_le (g r) v \<and> pyval_le v (g r)) rows = []"
      by (auto simp: filter_empty_conv)
    then show ?thesis by simp
  qed
qed

lemma number_order:
  "num_key x \<noteq> None \<Longrightarrow> num_key y \<noteq> None \<Longrightarrow>
   pyval_le x y = (the (num_key x) \<le> the (num_key y))"
  by (cases x; cases y) (auto simp: pyval_le_def)

lemma number_apart: "num_key x \<noteq> None \<Longrightarrow> num_key v = None \<Longrightarrow> \<not> pyval_le x v"
  by (cases x; cases v) (auto simp: pyval_le_def)

lemma string_order: "is_str x \<Longrightarrow> is_str y \<Longrightarrow> pyval_le x y = (str_of x \<le> str_of y)"
  by (simp add: pyval_le_def)

lemma string_apart: "is_str x \<Longrightarrow> \<not> is_str v \<Longrightarrow> \<not> pyval_le x v"
  by (cases x; cases v) (auto simp: pyval_le_def)

lemma nan_is_the_odd_number: "\<not> is_str k \<Longrightarrow> num_key k = None \<Longrightarrow> k = FloatV NaN"
proof (cases k)
  case (FloatV f)
  assume "num_key k = None"
  then show ?thesis using FloatV by (cases f) auto
qed auto

lemma sorted_by_key_keys:
  assumes "x \<in> sorted_by_key k rows" and "x \<noteq> Inl e" and "\<And>e'. x = Inl e' \<Longrightarrow> e' = TypeError"
  shows "collect (map (\<lambda>col. py_index col k) rows)
           = Inr (map (\<lambda>r. projr (py_index r k)) rows)
         \<and> (\<forall>r\<in>set rows. py_index r k = Inr (projr (py_index r k)))"
proof (cases "collect (map (\<lambda>col. py_index col k) rows)")
  case (Inl e')
  then have "x = Inl e'" using assms(1) by (simp add: sorted_by_key_def)
  moreover have "e' \<noteq> TypeError"
  proof -
    have "\<And>xs. collect (map (\<lambda>col. py_index col k) xs) = Inl e' \<Longrightarrow> e' \<noteq> TypeError"
    proof -
      fix xs show "collect (map (\<lambda>col. py_index col k) xs) = Inl e' \<Longrightarrow> e' \<noteq> TypeError"
        by (induction xs) (auto simp: py_index_def split: sum.splits if_splits)
    qed
    then show ?thesis using Inl by blast
  qed
  ultimately show ?thesis using assms(3) by blast
next
  case (Inr keys)
  have len: "length keys = length rows"
    and nth: "\<forall>i<length rows. py_index (rows ! i) k = Inr (keys ! i)"
    using collect_map_Inr [OF Inr] by auto
  have g: "\<forall>r\<in>set rows. py_index r k = Inr (projr (py_index r k))"
    using nth by (auto simp: in_set_conv_nth)
  have "keys = map (\<lambda>r. projr (py_index r k)) rows"
    using len nth by (intro nth_equalityI) auto
  then show ?thesis using Inr g by simp
qed

lemma sorted_by_key_perm:
  assumes "Inr rows' \<in> sorted_by_key k rows"
  shows "mset rows' = mset rows"
proof -
  let ?g = "\<lambda>r. projr (py_index r k)"
  have c: "collect (map (\<lambda>col. py_index col k) rows) = Inr (map ?g rows)"
    using sorted_by_key_keys [OF assms, of TypeError] by simp
  have zip: "zip (map ?g rows) rows = map (\<lambda>r. (?g r, r)) rows"
    using c by (rule collect_map_keys)
  have sp1: "map snd (sort_key (\<lambda>p. the (num_key (fst p))) (zip (map ?g rows) rows))
               = sort_key (\<lambda>r. the (num_key (?g r))) rows"
    unfolding zip by (rule sort_key_paired)
  have sp2: "map snd (sort_key (\<lambda>p. str_of (fst p)) (zip (map ?g rows) rows))
               = sort_key (\<lambda>r. str_of (?g r)) rows"
    unfolding zip by (rule sort_key_paired)
  show ?thesis
    using assms unfolding sorted_by_key_def c sum.case sp1 sp2
    by (auto split: if_splits)
qed

lemma sorted_by_key_sort:
  assumes "Inr rows' \<in> sorted_by_key k rows"
    and nonan: "\<forall>r\<in>set rows. py_index r k \<noteq> Inr (FloatV NaN)"
  shows "\<exists>g. (\<forall>r\<in>set rows. py_index r k = Inr (g r))
           \<and> mset rows' = mset rows
           \<and> sorted_wrt (\<lambda>a b. pyval_le (g a) (g b)) rows'
           \<and> (\<forall>v. filter (\<lambda>r. pyval_le (g r) v \<and> pyval_le v (g r)) rows'
                    = filter (\<lambda>r. pyval_le (g r) v \<and> pyval_le v (g r)) rows)"
proof -
  let ?g = "\<lambda>r. projr (py_index r k)"
  have c: "collect (map (\<lambda>col. py_index col k) rows) = Inr (map ?g rows)"
    and g: "\<forall>r\<in>set rows. py_index r k = Inr (?g r)"
    using sorted_by_key_keys [OF assms(1), of TypeError] by simp_all
  have nn: "\<forall>r\<in>set rows. ?g r \<noteq> FloatV NaN"
    using g nonan by (metis)
  have zip: "zip (map ?g rows) rows = map (\<lambda>r. (?g r, r)) rows"
    using c by (rule collect_map_keys)
  have sp1: "map snd (sort_key (\<lambda>p. the (num_key (fst p))) (zip (map ?g rows) rows))
               = sort_key (\<lambda>r. the (num_key (?g r))) rows"
    unfolding zip by (rule sort_key_paired)
  have sp2: "map snd (sort_key (\<lambda>p. str_of (fst p)) (zip (map ?g rows) rows))
               = sort_key (\<lambda>r. str_of (?g r)) rows"
    unfolding zip by (rule sort_key_paired)
  have perm: "mset rows' = mset rows" using assms(1) by (rule sorted_by_key_perm)
  have no_third: "list_all (\<lambda>k. num_key k \<noteq> None) (map ?g rows)"
    if a: "list_all (\<lambda>k. \<not> is_str k) (map ?g rows)"
  proof -
    have "num_key (?g r) \<noteq> None" if r: "r \<in> set rows" for r
    proof
      assume "num_key (?g r) = None"
      moreover have "\<not> is_str (?g r)" using a r by (simp add: list_all_iff)
      ultimately have "?g r = FloatV NaN" by (intro nan_is_the_odd_number)
      then show False using nn r by blast
    qed
    then show ?thesis unfolding list_all_iff by simp
  qed
  have no_nan: "\<not> list_ex (\<lambda>k. k = FloatV NaN) (map ?g rows)"
    using nn by (auto simp: list_ex_iff)
  consider (nums) "list_all (\<lambda>k. num_key k \<noteq> None) (map ?g rows)"
      "rows' = sort_key (\<lambda>r. the (num_key (?g r))) rows"
    | (strs) "list_all is_str (map ?g rows)" "rows' = sort_key (\<lambda>r. str_of (?g r)) rows"
    using assms(1) no_third no_nan unfolding sorted_by_key_def c sum.case sp1 sp2
    by (auto split: if_splits)
  then show ?thesis
  proof cases
    case nums
    have K: "\<forall>r\<in>set rows. ?g r \<in> {v. num_key v \<noteq> None}"
      using nums(1) by (auto simp: list_all_iff)
    have le: "\<forall>x\<in>{v. num_key v \<noteq> None}. \<forall>y\<in>{v. num_key v \<noteq> None}.
                pyval_le x y = (the (num_key x) \<le> the (num_key y))"
      by (auto simp: number_order)
    have out: "\<forall>x\<in>{v. num_key v \<noteq> None}. \<forall>v. v \<notin> {v. num_key v \<noteq> None}
                \<longrightarrow> \<not> (pyval_le x v \<and> pyval_le v x)"
    proof (intro ballI allI impI)
      fix x v :: pyval
      assume "x \<in> {v. num_key v \<noteq> None}" "v \<notin> {v. num_key v \<noteq> None}"
      then have "num_key x \<noteq> None" "num_key v = None"
        unfolding mem_Collect_eq by blast+
      then have "\<not> pyval_le x v" by (rule number_apart)
      then show "\<not> (pyval_le x v \<and> pyval_le v x)" by blast
    qed
    show ?thesis
      using g perm stable_sort_generic [OF K le out] nums(2) by (intro exI [of _ ?g]) auto
  next
    case strs
    have K: "\<forall>r\<in>set rows. ?g r \<in> {v. is_str v}"
      using strs(1) by (auto simp: list_all_iff)
    have le: "\<forall>x\<in>{v. is_str v}. \<forall>y\<in>{v. is_str v}. pyval_le x y = (str_of x \<le> str_of y)"
      by (auto simp: string_order)
    have out: "\<forall>x\<in>{v. is_str v}. \<forall>v. v \<notin> {v. is_str v} \<longrightarrow> \<not> (pyval_le x v \<and> pyval_le v x)"
    proof (intro ballI allI impI)
      fix x v :: pyval
      assume "x \<in> {v. is_str v}" "v \<notin> {v. is_str v}"
      then have "is_str x" "\<not> is_str v"
        unfolding mem_Collect_eq by blast+
      then have "\<not> pyval_le x v" by (rule string_apart)
      then show "\<not> (pyval_le x v \<and> pyval_le v x)" by blast
    qed
    show ?thesis
      using g perm stable_sort_generic [OF K le out] strs(2) by (intro exI [of _ ?g]) auto
  qed
qed

lemma first_index_None: "first_index xs a = None \<longleftrightarrow> a \<notin> set xs"
  by (induction xs) auto

lemma first_index_Some: "first_index xs a = Some c \<Longrightarrow> c < length xs \<and> xs ! c = a"
  by (induction xs arbitrary: c) (auto split: if_splits)


lemma get_colnum_Inr: "get_colnum t name = Inr c \<Longrightarrow> c < length (results_headers t)"
  by (auto simp: get_colnum_def split: option.splits dest: first_index_Some)

lemma get_colnum_Inl:
  "get_colnum t name = Inl e \<Longrightarrow>
   name \<notin> set (results_headers t) \<and> e = IndexError (''Column '' @ name @ '' not in results table'')"
  by (auto simp: get_colnum_def first_index_None split: option.splits)

lemma zip_rows_full:
  "length rows \<le> length data \<Longrightarrow>
   length (zip_rows f rows data) = length rows \<and>
   (\<forall>j<length rows. zip_rows f rows data ! j = f (data ! j) (rows ! j))"
  by (induction f rows data rule: zip_rows.induct) (auto simp: nth_Cons split: nat.splits)

lemma row_ranks:
  "length (py_range2 1 (int n + 1)) = n"
  "j < n \<Longrightarrow> py_range2 1 (int n + 1) ! j = int j + 1"
  by (simp_all add: py_range2_def)


lemma add_ranks_result:
  assumes "add_ranks t = Inr t'"
  shows "length (results_rows t') = length (results_rows t)"
    and "get_colnum t ''Rank'' = Inr c \<Longrightarrow> \<forall>r\<in>set (results_rows t). c < length r \<Longrightarrow>
         results_headers t' = results_headers t \<and>
         (\<forall>j<length (results_rows t). results_rows t' ! j = (results_rows t ! j)[c := IntV (int j + 1)])"
    and "\<forall>c. get_colnum t ''Rank'' \<noteq> Inr c \<Longrightarrow>
         results_headers t' = ''Rank'' # results_headers t \<and>
         (\<forall>j<length (results_rows t). results_rows t' ! j = IntV (int j + 1) # results_rows t ! j)"
proof -
  let ?n = "length (results_rows t)"
  let ?ranks = "map IntV (py_range2 1 (int ?n + 1))"
  let ?run = "update_column_run t ''Rank'' ?ranks"
  have lr: "length ?ranks = ?n" by (simp add: row_ranks)
  have run_len: "length (results_rows (fst ?run)) = ?n"
    by (simp add: update_column_run_def assign_rows_length split: sum.splits)
  show "length (results_rows t') = length (results_rows t)"
  proof (cases "snd ?run")
    case None
    then show ?thesis using assms run_len by (simp add: add_ranks_def len_def Let_def)
  next
    case (Some e)
    then have "add_column (fst ?run) ''Rank'' ?ranks 0 = Inr t'"
      using assms by (cases e) (simp_all add: add_ranks_def len_def Let_def)
    then show ?thesis using run_len
      by (auto simp: add_column_def zip_rows_length split: if_splits)
  qed
  show "results_headers t' = results_headers t \<and>
         (\<forall>j<length (results_rows t). results_rows t' ! j = (results_rows t ! j)[c := IntV (int j + 1)])"
    if c: "get_colnum t ''Rank'' = Inr c" and wide: "\<forall>r\<in>set (results_rows t). c < length r"
  proof -
    have ok: "snd (assign_rows c (results_rows t) ?ranks) = None"
      using wide by (rule assign_rows_returns)
    then have t': "t' = t\<lparr>results_rows := fst (assign_rows c (results_rows t) ?ranks)\<rparr>"
      using assms c by (simp add: add_ranks_def len_def Let_def update_column_run_def)
    from assign_rows_full [OF ok] lr show ?thesis
      by (simp add: t' row_ranks)
  qed
  show "results_headers t' = ''Rank'' # results_headers t \<and>
         (\<forall>j<length (results_rows t). results_rows t' ! j = IntV (int j + 1) # results_rows t ! j)"
    if nc: "\<forall>c. get_colnum t ''Rank'' \<noteq> Inr c"
  proof -
    obtain e where e: "get_colnum t ''Rank'' = Inl e"
      using nc by (cases "get_colnum t ''Rank''") auto
    then have fresh: "''Rank'' \<notin> set (results_headers t)"
      and msg: "e = IndexError (''Column '' @ ''Rank'' @ '' not in results table'')"
      by (auto dest: get_colnum_Inl)
    have "add_column t ''Rank'' ?ranks 0 = Inr t'"
      using assms e msg by (simp add: add_ranks_def len_def Let_def update_column_run_def)
    then have t': "t' = \<lparr>results_headers = ''Rank'' # results_headers t,
                          results_rows = zip_rows (py_insert 0) (results_rows t) ?ranks\<rparr>"
      using fresh by (simp add: add_column_def py_insert_zero)
    from zip_rows_full [of "results_rows t" ?ranks "py_insert 0"] lr show ?thesis
      by (simp add: t' row_ranks py_insert_zero)
  qed
qed

lemma add_ranks_cases:
  assumes "table_inv t"
  shows "add_ranks t = update_column t ''Rank'' (map IntV (py_range2 1 (int (len t) + 1)))
           \<and> (\<exists>t'. add_ranks t = Inr t')
         \<or> add_ranks t = add_column t ''Rank'' (map IntV (py_range2 1 (int (len t) + 1))) 0
           \<and> (\<exists>t'. add_ranks t = Inr t')"
proof (cases "get_colnum t ''Rank''")
  case (Inl e)
  then have fresh: "''Rank'' \<notin> set (results_headers t)"
    and msg: "e = IndexError (''Column '' @ ''Rank'' @ '' not in results table'')"
    by (auto dest: get_colnum_Inl)
  have "add_ranks t = add_column t ''Rank'' (map IntV (py_range2 1 (int (len t) + 1))) 0"
    using Inl msg by (simp add: add_ranks_def Let_def update_column_run_def)
  moreover have "\<exists>t'. add_column t ''Rank'' (map IntV (py_range2 1 (int (len t) + 1))) 0 = Inr t'"
    using fresh by (simp add: add_column_def)
  ultimately show ?thesis by simp
next
  case (Inr c)
  then have "c < length (results_headers t)" by (rule get_colnum_Inr)
  then have "\<forall>r\<in>set (results_rows t). c < length r"
    using assms by (auto simp: table_inv_def list_all_iff)
  then have ok: "snd (assign_rows c (results_rows t) (map IntV (py_range2 1 (int (len t) + 1)))) = None"
    by (rule assign_rows_returns)
  then have "add_ranks t = update_column t ''Rank'' (map IntV (py_range2 1 (int (len t) + 1)))"
    and "\<exists>t'. add_ranks t = Inr t'"
    using Inr by (simp_all add: add_ranks_def Let_def update_column_def update_column_run_def)
  then show ?thesis by simp
qed

lemma add_ranks_inv:
  assumes "table_inv t" and "add_ranks t = Inr t'"
  shows "table_inv t'"
proof -
  let ?ranks = "map IntV (py_range2 1 (int (len t) + 1))"
  have lr: "length (results_rows t) \<le> length ?ranks"
    by (simp add: row_ranks len_def)
  consider (upd) "update_column t ''Rank'' ?ranks = Inr t'"
    | (add) "add_column t ''Rank'' ?ranks 0 = Inr t'"
    using add_ranks_cases [OF assms(1)] assms(2) by auto
  then show ?thesis
  proof cases
    case upd
    with assms(1) show ?thesis by (rule update_column_inv)
  next
    case add
    with assms(1) show ?thesis using lr by (rule add_column_inv)
  qed
qed

lemma add_ranks_returns: "table_inv t \<Longrightarrow> \<exists>t'. add_ranks t = Inr t'"
  using add_ranks_cases by blast

lemma sortby_outcome:
  assumes "Inr t' \<in> sortby t key add_rank"
  shows "\<exists>k srt. resolve_key t key = Inr k \<and> Inr srt \<in> sorted_by_key k (results_rows t)
           \<and> (if add_rank then add_ranks (t\<lparr>results_rows := srt\<rparr>)
               else Inr (t\<lparr>results_rows := srt\<rparr>)) = Inr t'"
proof (cases "resolve_key t key")
  case (Inl e)
  then show ?thesis using assms by (simp add: sortby_def)
next
  case (Inr k)
  then obtain x where x: "x \<in> sorted_by_key k (results_rows t)"
    and r: "(case x of Inl e \<Rightarrow> Inl e
             | Inr rows' \<Rightarrow> if add_rank then add_ranks (t\<lparr>results_rows := rows'\<rparr>)
                            else Inr (t\<lparr>results_rows := rows'\<rparr>)) = Inr t'"
    using assms by (auto simp: sortby_def)
  then obtain srt where "x = Inr srt" by (cases x) auto
  then show ?thesis using Inr x r by auto
qed

lemma sortby_inv:
  assumes "table_inv t" and "Inr t' \<in> sortby t key add_rank"
  shows "table_inv t'"
proof -
  obtain k rows' where s: "Inr rows' \<in> sorted_by_key k (results_rows t)"
    and r: "(if add_rank then add_ranks (t\<lparr>results_rows := rows'\<rparr>)
             else Inr (t\<lparr>results_rows := rows'\<rparr>)) = Inr t'"
    using sortby_outcome [OF assms(2)] by blast
  have "mset rows' = mset (results_rows t)"
    using s by (rule sorted_by_key_perm)
  then have "set rows' = set (results_rows t)" by (rule mset_eq_setD)
  then have inv: "table_inv (t\<lparr>results_rows := rows'\<rparr>)"
    using assms(1) by (simp add: table_inv_def list_all_iff)
  show ?thesis
  proof (cases add_rank)
    case True
    then show ?thesis using r inv by (auto intro: add_ranks_inv)
  next
    case False
    then show ?thesis using r inv by auto
  qed
qed

text \<open>
  C9 (as amended). On a table that satisfies the invariant (every row as wide as the
  header list, no header twice), \<open>update_column\<close> and \<open>sortby\<close> keep the invariant whenever
  they return normally, and \<open>add_column\<close> keeps it whenever it returns normally and was
  given at least as many values as the table has rows.
\<close>

theorem mutators_preserve_table_inv:
  assumes "table_inv t"
  shows "(\<forall>t'. add_column t name data pos = Inr t' \<and> length (results_rows t) \<le> length data
              \<longrightarrow> table_inv t')
       \<and> (\<forall>t'. update_column t name' data' = Inr t' \<longrightarrow> table_inv t')
       \<and> (\<forall>t'. Inr t' \<in> sortby t key add_rank \<longrightarrow> table_inv t')"
  using assms add_column_inv update_column_inv sortby_inv by blast

theorem mutators_preserve_table_inv_witness:
  "table_inv \<lparr>results_headers = [''a''], results_rows = [[IntV 5], [IntV 3]]\<rparr>
   \<and> add_column \<lparr>results_headers = [''a''], results_rows = [[IntV 5], [IntV 3]]\<rparr> ''b'' [IntV 9, IntV 8] 0
       = Inr \<lparr>results_headers = [''b'', ''a''], results_rows = [[IntV 9, IntV 5], [IntV 8, IntV 3]]\<rparr>
   \<and> table_inv \<lparr>results_headers = [''b'', ''a''], results_rows = [[IntV 9, IntV 5], [IntV 8, IntV 3]]\<rparr>
   \<and> update_column \<lparr>results_headers = [''a''], results_rows = [[IntV 5], [IntV 3]]\<rparr> ''a'' [IntV 7]
       = Inr \<lparr>results_headers = [''a''], results_rows = [[IntV 7], [IntV 3]]\<rparr>
   \<and> table_inv \<lparr>results_headers = [''a''], results_rows = [[IntV 7], [IntV 3]]\<rparr>
   \<and> sortby \<lparr>results_headers = [''a''], results_rows = [[IntV 5], [IntV 3]]\<rparr> (ByName ''a'') True
       = {Inr \<lparr>results_headers = [''Rank'', ''a''], results_rows = [[IntV 1, IntV 3], [IntV 2, IntV 5]]\<rparr>}
   \<and> table_inv \<lparr>results_headers = [''Rank'', ''a''], results_rows = [[IntV 1, IntV 3], [IntV 2, IntV 5]]\<rparr>"
proof -
  let ?t = "\<lparr>results_headers = [''a''], results_rows = [[IntV 5], [IntV 3]]\<rparr> :: pyval results"
  let ?s = "\<lparr>results_headers = [''Rank'', ''a''], results_rows = [[IntV 1, IntV 3], [IntV 2, IntV 5]]\<rparr>"
  have inv: "table_inv ?t" by (simp add: table_inv_def)
  have a: "add_column ?t ''b'' [IntV 9, IntV 8] 0
       = Inr \<lparr>results_headers = [''b'', ''a''], results_rows = [[IntV 9, IntV 5], [IntV 8, IntV 3]]\<rparr>"
    by (simp add: add_column_def py_insert_def)
  have u: "update_column ?t ''a'' [IntV 7] = Inr \<lparr>results_headers = [''a''], results_rows = [[IntV 7], [IntV 3]]\<rparr>"
    by (simp add: update_column_def update_column_run_def get_colnum_def rstrip_nul_def)
  have s: "sortby ?t (ByName ''a'') True = {Inr ?s}"
    by (simp add: sortby_def resolve_key_def get_colnum_def rstrip_nul_def sorted_by_key_def py_index_def
        add_ranks_def len_def py_range2_def update_column_run_def add_column_def py_insert_def upt_rec)
  then have s': "Inr ?s \<in> sortby ?t (ByName ''a'') True" by simp
  note th = mutators_preserve_table_inv [OF inv, where name = "''b''" and data = "[IntV 9, IntV 8]" and pos = 0
          and name' = "''a''" and data' = "[IntV 7]" and key = "ByName ''a''" and add_rank = True]
  have p: "add_column ?t ''b'' [IntV 9, IntV 8] 0
       = Inr \<lparr>results_headers = [''b'', ''a''], results_rows = [[IntV 9, IntV 5], [IntV 8, IntV 3]]\<rparr>
     \<and> length (results_rows ?t) \<le> length [IntV 9, IntV 8]"
    using a by simp
  have i1: "table_inv \<lparr>results_headers = [''b'', ''a''], results_rows = [[IntV 9, IntV 5], [IntV 8, IntV 3]]\<rparr>"
    using th [THEN conjunct1, rule_format, OF p] .
  have i2: "table_inv \<lparr>results_headers = [''a''], results_rows = [[IntV 7], [IntV 3]]\<rparr>"
    using th [THEN conjunct2, THEN conjunct1, rule_format, OF u] .
  have i3: "table_inv ?s"
    using th [THEN conjunct2, THEN conjunct2, rule_format, OF s'] .
  from inv a i1 u i2 s i3 show ?thesis by (intro conjI)
qed

text \<open>
  The claim as written covers every normal return of \<open>add_column\<close>. With fewer values than
  rows the loop over \<open>zip(rows, data)\<close> stops early, the call returns normally, and the
  last row is left one cell short.
\<close>

theorem add_column_short_data_counterexample:
  "table_inv \<lparr>results_headers = [''a''], results_rows = [[IntV 1], [IntV 2]]\<rparr>
   \<and> add_column \<lparr>results_headers = [''a''], results_rows = [[IntV 1], [IntV 2]]\<rparr> ''b'' [IntV 9] 0
       = Inr \<lparr>results_headers = [''b'', ''a''], results_rows = [[IntV 9, IntV 1], [IntV 2]]\<rparr>
   \<and> \<not> table_inv \<lparr>results_headers = [''b'', ''a''], results_rows = [[IntV 9, IntV 1], [IntV 2]]\<rparr>"
  by (simp add: table_inv_def add_column_def py_insert_def)


lemma get_colnum_rows: "get_colnum (t\<lparr>results_rows := rows\<rparr>) name = get_colnum t name"
  by (simp add: get_colnum_def)

lemma sortby_result:
  assumes "Inr t' \<in> sortby t key add_rank"
    and nonan: "\<forall>k. resolve_key t key = Inr k \<longrightarrow>
             (\<forall>r\<in>set (results_rows t). py_index r k \<noteq> Inr (FloatV NaN))"
  shows "\<exists>k g srt.
      resolve_key t key = Inr k
    \<and> (\<forall>r\<in>set (results_rows t). py_index r k = Inr (g r))
    \<and> mset srt = mset (results_rows t)
    \<and> sorted_wrt (\<lambda>a b. pyval_le (g a) (g b)) srt
    \<and> (\<forall>v. filter (\<lambda>r. pyval_le (g r) v \<and> pyval_le v (g r)) srt
           = filter (\<lambda>r. pyval_le (g r) v \<and> pyval_le v (g r)) (results_rows t))
    \<and> length (results_rows t') = length srt
    \<and> (if \<not> add_rank then results_headers t' = results_headers t \<and> results_rows t' = srt
       else case get_colnum t ''Rank'' of
              Inr c \<Rightarrow> (\<forall>r\<in>set srt. c < length r) \<longrightarrow>
                 results_headers t' = results_headers t \<and>
                 (\<forall>j<length srt. results_rows t' ! j = (srt ! j)[c := IntV (int j + 1)])
            | Inl e \<Rightarrow>
                 results_headers t' = ''Rank'' # results_headers t \<and>
                 (\<forall>j<length srt. results_rows t' ! j = IntV (int j + 1) # srt ! j))"
proof -
  obtain k srt where k: "resolve_key t key = Inr k"
    and s: "Inr srt \<in> sorted_by_key k (results_rows t)"
    and r: "(if add_rank then add_ranks (t\<lparr>results_rows := srt\<rparr>)
             else Inr (t\<lparr>results_rows := srt\<rparr>)) = Inr t'"
    using sortby_outcome [OF assms(1)] by blast
  have "\<forall>r\<in>set (results_rows t). py_index r k \<noteq> Inr (FloatV NaN)"
    using nonan k by blast
  from sorted_by_key_sort [OF s this]
  obtain g where g: "\<forall>r\<in>set (results_rows t). py_index r k = Inr (g r)"
    "mset srt = mset (results_rows t)"
    "sorted_wrt (\<lambda>a b. pyval_le (g a) (g b)) srt"
    "\<forall>v. filter (\<lambda>r. pyval_le (g r) v \<and> pyval_le v (g r)) srt
           = filter (\<lambda>r. pyval_le (g r) v \<and> pyval_le v (g r)) (results_rows t)"
    by blast
  have tail: "length (results_rows t') = length srt
    \<and> (if \<not> add_rank then results_headers t' = results_headers t \<and> results_rows t' = srt
       else case get_colnum t ''Rank'' of
              Inr c \<Rightarrow> (\<forall>r\<in>set srt. c < length r) \<longrightarrow>
                 results_headers t' = results_headers t \<and>
                 (\<forall>j<length srt. results_rows t' ! j = (srt ! j)[c := IntV (int j + 1)])
            | Inl e \<Rightarrow>
                 results_headers t' = ''Rank'' # results_headers t \<and>
                 (\<forall>j<length srt. results_rows t' ! j = IntV (int j + 1) # srt ! j))"
  proof (cases add_rank)
    case True
    then have ar: "add_ranks (t\<lparr>results_rows := srt\<rparr>) = Inr t'" using r by simp
    show ?thesis
    proof (cases "get_colnum t ''Rank''")
      case (Inl e)
      then have "\<forall>c. get_colnum (t\<lparr>results_rows := srt\<rparr>) ''Rank'' \<noteq> Inr c"
        by (simp add: get_colnum_rows)
      from add_ranks_result(1,3) [OF ar] this show ?thesis using True Inl by simp
    next
      case (Inr c)
      then have "get_colnum (t\<lparr>results_rows := srt\<rparr>) ''Rank'' = Inr c"
        by (simp add: get_colnum_rows)
      from add_ranks_result(1,2) [OF ar] this show ?thesis using True Inr by simp
    qed
  next
    case False
    then show ?thesis using r by auto
  qed
  show ?thesis
    using k g tail by blast
qed

lemma sortby_returns:
  assumes inv: "table_inv t" and c: "get_colnum t name = Inr c"
    and hom: "list_all (\<lambda>r. num_key (r ! c) \<noteq> None) (results_rows t)
              \<or> list_all (\<lambda>r. is_str (r ! c)) (results_rows t)"
  shows "\<exists>t'. sortby t (ByName name) add_rank = {Inr t'}"
proof -
  let ?keys = "map (\<lambda>r. r ! c) (results_rows t)"
  have k: "resolve_key t (ByName name) = Inr (int c)"
    using c by (simp add: resolve_key_def)
  have "c < length (results_headers t)" using c by (rule get_colnum_Inr)
  then have "\<forall>r\<in>set (results_rows t). py_index r (int c) = Inr (r ! c)"
    using inv by (auto simp: table_inv_def list_all_iff py_index_def)
  then have keys: "collect (map (\<lambda>col. py_index col (int c)) (results_rows t)) = Inr ?keys"
    by (rule collect_all_Inr)
  have "\<exists>srt. sorted_by_key (int c) (results_rows t) = {Inr srt}"
  proof (cases "list_all (\<lambda>k. num_key k \<noteq> None) ?keys")
    case True
    then show ?thesis unfolding sorted_by_key_def keys sum.case by (simp only: if_True) blast
  next
    case False
    then have "\<not> list_all (\<lambda>r. num_key (r ! c) \<noteq> None) (results_rows t)"
      unfolding list_all_iff by simp
    then have "list_all (\<lambda>r. is_str (r ! c)) (results_rows t)" using hom by blast
    then have "list_all is_str ?keys" unfolding list_all_iff by simp
    then show ?thesis using False unfolding sorted_by_key_def keys sum.case
      by (simp only: if_True if_False) blast
  qed
  then obtain srt where s: "sorted_by_key (int c) (results_rows t) = {Inr srt}" by blast
  then have "Inr srt \<in> sorted_by_key (int c) (results_rows t)" by simp
  then have "mset srt = mset (results_rows t)" by (rule sorted_by_key_perm)
  then have "set srt = set (results_rows t)" by (rule mset_eq_setD)
  then have "table_inv (t\<lparr>results_rows := srt\<rparr>)"
    using inv by (simp add: table_inv_def list_all_iff)
  then obtain t' where "add_ranks (t\<lparr>results_rows := srt\<rparr>) = Inr t'"
    using add_ranks_returns by blast
  then show ?thesis
    by (cases add_rank) (simp_all add: sortby_def k s)
qed

text \<open>
  C8 (as amended). The key cells \<open>col[key]\<close> are ints, floats or strings. Whenever
  \<open>sortby\<close> returns normally on a table none of whose key cells is the float NaN, the
  rows are a stable sort of the old rows by the key cell: the same rows, in ascending key
  order (numbers by value, an int and a float compared exactly; strings
  lexicographically), rows whose keys compare equal in their old relative order. With
  \<open>add_rank\<close> the sorted rows carry the ranks 1, 2, ..., N in row order: in a new column
  ``Rank'' inserted at position 0 when \<open>get_colnum\<close> finds no such column, and otherwise,
  when every row reaches the column found, in that existing column, at the position where
  it already stands. The sort returns normally, with one possible outcome, on every table
  that satisfies the invariant when the key is a name that \<open>get_colnum\<close> finds and the
  cells of that column are all numbers other than NaN or all strings.
\<close>

theorem sortby_stable_rank:
  "(Inr t' \<in> sortby t key add_rank
      \<and> (\<forall>k. resolve_key t key = Inr k \<longrightarrow>
             (\<forall>r\<in>set (results_rows t). py_index r k \<noteq> Inr (FloatV NaN))) \<longrightarrow>
     (\<exists>k g srt.
      resolve_key t key = Inr k
    \<and> (\<forall>r\<in>set (results_rows t). py_index r k = Inr (g r))
    \<and> mset srt = mset (results_rows t)
    \<and> sorted_wrt (\<lambda>a b. pyval_le (g a) (g b)) srt
    \<and> (\<forall>v. filter (\<lambda>r. pyval_le (g r) v \<and> pyval_le v (g r)) srt
           = filter (\<lambda>r. pyval_le (g r) v \<and> pyval_le v (g r)) (results_rows t))
    \<and> length (results_rows t') = length srt
    \<and> (if \<not> add_rank then results_headers t' = results_headers t \<and> results_rows t' = srt
       else case get_colnum t ''Rank'' of
              Inr c \<Rightarrow> (\<forall>r\<in>set srt. c < length r) \<longrightarrow>
                 results_headers t' = results_headers t \<and>
                 (\<forall>j<length srt. results_rows t' ! j = (srt ! j)[c := IntV (int j + 1)])
            | Inl e \<Rightarrow>
                 results_headers t' = ''Rank'' # results_headers t \<and>
                 (\<forall>j<length srt. results_rows t' ! j = IntV (int j + 1) # srt ! j))))
   \<and> (table_inv t \<and> get_colnum t name = Inr c
        \<and> (list_all (\<lambda>r. num_key (r ! c) \<noteq> None) (results_rows t)
             \<or> list_all (\<lambda>r. is_str (r ! c)) (results_rows t)) \<longrightarrow>
      (\<exists>t''. sortby t (ByName name) add_rank = {Inr t''}))"
proof (intro conjI impI)
  assume "Inr t' \<in> sortby t key add_rank
      \<and> (\<forall>k. resolve_key t key = Inr k \<longrightarrow>
             (\<forall>r\<in>set (results_rows t). py_index r k \<noteq> Inr (FloatV NaN)))"
  then show "\<exists>k g srt.
      resolve_key t key = Inr k
    \<and> (\<forall>r\<in>set (results_rows t). py_index r k = Inr (g r))
    \<and> mset srt = mset (results_rows t)
    \<and> sorted_wrt (\<lambda>a b. pyval_le (g a) (g b)) srt
    \<and> (\<forall>v. filter (\<lambda>r. pyval_le (g r) v \<and> pyval_le v (g r)) srt
           = filter (\<lambda>r. pyval_le (g r) v \<and> pyval_le v (g r)) (results_rows t))
    \<and> length (results_rows t') = length srt
    \<and> (if \<not> add_rank then results_headers t' = results_headers t \<and> results_rows t' = srt
       else case get_colnum t ''Rank'' of
              Inr c \<Rightarrow> (\<forall>r\<in>set srt. c < length r) \<longrightarrow>
                 results_headers t' = results_headers t \<and>
                 (\<forall>j<length srt. results_rows t' ! j = (srt ! j)[c := IntV (int j + 1)])
            | Inl e \<Rightarrow>
                 results_headers t' = ''Rank'' # results_headers t \<and>
                 (\<forall>j<length srt. results_rows t' ! j = IntV (int j + 1) # srt ! j))"
    by (intro sortby_result) blast+
next
  assume "table_inv t \<and> get_colnum t name = Inr c
        \<and> (list_all (\<lambda>r. num_key (r ! c) \<noteq> None) (results_rows t)
             \<or> list_all (\<lambda>r. is_str (r ! c)) (results_rows t))"
  then show "\<exists>t''. sortby t (ByName name) add_rank = {Inr t''}"
    by (intro sortby_returns) auto
qed

theorem sortby_stable_rank_witness:
  "sortby \<lparr>results_headers = [''factor'', ''p''],
            results_rows = [[StrV ''b'', IntV 1], [StrV ''a'', FloatV (Float 1)], [StrV ''c'', IntV 0]]\<rparr>
      (ByName ''p'') True
     = {Inr \<lparr>results_headers = [''Rank'', ''factor'', ''p''],
            results_rows = [[IntV 1, StrV ''c'', IntV 0], [IntV 2, StrV ''b'', IntV 1],
                            [IntV 3, StrV ''a'', FloatV (Float 1)]]\<rparr>}
   \<and> (\<exists>k g srt.
        resolve_key \<lparr>results_headers = [''factor'', ''p''],
            results_rows = [[StrV ''b'', IntV 1], [StrV ''a'', FloatV (Float 1)], [StrV ''c'', IntV 0]]\<rparr> (ByName ''p'') = Inr k
      \<and> (\<forall>r\<in>set [[StrV ''b'', IntV 1], [StrV ''a'', FloatV (Float 1)], [StrV ''c'', IntV 0]].
            py_index r k = Inr (g r))
      \<and> mset srt = mset [[StrV ''b'', IntV 1], [StrV ''a'', FloatV (Float 1)], [StrV ''c'', IntV 0]]
      \<and> sorted_wrt (\<lambda>a b. pyval_le (g a) (g b)) srt
      \<and> (\<forall>v. filter (\<lambda>r. pyval_le (g r) v \<and> pyval_le v (g r)) srt
             = filter (\<lambda>r. pyval_le (g r) v \<and> pyval_le v (g r)) [[StrV ''b'', IntV 1], [StrV ''a'', FloatV (Float 1)], [StrV ''c'', IntV 0]])
      \<and> (\<forall>j<length srt.
            [[IntV 1, StrV ''c'', IntV 0], [IntV 2, StrV ''b'', IntV 1],
             [IntV 3, StrV ''a'', FloatV (Float 1)]] ! j = IntV (int j + 1) # srt ! j))
   \<and> (\<exists>t''. sortby \<lparr>results_headers = [''factor'', ''p''],
            results_rows = [[StrV ''b'', IntV 1], [StrV ''a'', FloatV (Float 1)], [StrV ''c'', IntV 0]]\<rparr>
          (ByName ''p'') True = {Inr t''})"
proof -
  let ?t = "\<lparr>results_headers = [''factor'', ''p''],
            results_rows = [[StrV ''b'', IntV 1], [StrV ''a'', FloatV (Float 1)], [StrV ''c'', IntV 0]]\<rparr>"
  let ?t' = "\<lparr>results_headers = [''Rank'', ''factor'', ''p''],
            results_rows = [[IntV 1, StrV ''c'', IntV 0], [IntV 2, StrV ''b'', IntV 1],
                            [IntV 3, StrV ''a'', FloatV (Float 1)]]\<rparr>"
  note th = sortby_stable_rank [of ?t' ?t "ByName ''p''" True "''p''" 1]
  have s: "sortby ?t (ByName ''p'') True = {Inr ?t'}"
    by (simp add: sortby_def resolve_key_def get_colnum_def rstrip_nul_def sorted_by_key_def py_index_def
        add_ranks_def len_def py_range2_def update_column_run_def add_column_def py_insert_def upt_rec)
  have gc: "get_colnum ?t ''Rank'' = Inl (IndexError ''Column Rank not in results table'')"
    by (simp add: get_colnum_def rstrip_nul_def)
  have pre1: "Inr ?t' \<in> sortby ?t (ByName ''p'') True
      \<and> (\<forall>k. resolve_key ?t (ByName ''p'') = Inr k \<longrightarrow>
             (\<forall>r\<in>set (results_rows ?t). py_index r k \<noteq> Inr (FloatV NaN)))"
    unfolding s by (simp add: resolve_key_def get_colnum_def rstrip_nul_def py_index_def)
  have first: "\<exists>k g srt.
        resolve_key \<lparr>results_headers = [''factor'', ''p''],
            results_rows = [[StrV ''b'', IntV 1], [StrV ''a'', FloatV (Float 1)], [StrV ''c'', IntV 0]]\<rparr> (ByName ''p'') = Inr k
      \<and> (\<forall>r\<in>set [[StrV ''b'', IntV 1], [StrV ''a'', FloatV (Float 1)], [StrV ''c'', IntV 0]].
            py_index r k = Inr (g r))
      \<and> mset srt = mset [[StrV ''b'', IntV 1], [StrV ''a'', FloatV (Float 1)], [StrV ''c'', IntV 0]]
      \<and> sorted_wrt (\<lambda>a b. pyval_le (g a) (g b)) srt
      \<and> (\<forall>v. filter (\<lambda>r. pyval_le (g r) v \<and> pyval_le v (g r)) srt
             = filter (\<lambda>r. pyval_le (g r) v \<and> pyval_le v (g r)) [[StrV ''b'', IntV 1], [StrV ''a'', FloatV (Float 1)], [StrV ''c'', IntV 0]])
      \<and> (\<forall>j<length srt.
            [[IntV 1, StrV ''c'', IntV 0], [IntV 2, StrV ''b'', IntV 1],
             [IntV 3, StrV ''a'', FloatV (Float 1)]] ! j = IntV (int j + 1) # srt ! j)"
    using th [THEN conjunct1, rule_format, OF pre1,
              unfolded results.select_convs not_True_eq_False if_False gc sum.case]
    by blast
  have pre2: "table_inv ?t \<and> get_colnum ?t ''p'' = Inr 1
        \<and> (list_all (\<lambda>r. num_key (r ! 1) \<noteq> None) (results_rows ?t)
             \<or> list_all (\<lambda>r. is_str (r ! 1)) (results_rows ?t))"
    by (simp add: table_inv_def get_colnum_def rstrip_nul_def)
  have second: "\<exists>t''. sortby ?t (ByName ''p'') True = {Inr t''}"
    using th [THEN conjunct2, rule_format, OF pre2] .
  from s first second show ?thesis by (intro conjI)
qed

text \<open>
  The claim as written puts the ranks at position 0 in every case. On a table that already
  has a ``Rank'' column in second place the ranks go there, and position 0 keeps the key
  cells.
\<close>

theorem sortby_rank_position_counterexample:
  "sortby \<lparr>results_headers = [''a'', ''Rank''], results_rows = [[IntV 5, IntV 0], [IntV 3, IntV 0]]\<rparr>
      (ByIndex 0) True
     = {Inr \<lparr>results_headers = [''a'', ''Rank''], results_rows = [[IntV 3, IntV 1], [IntV 5, IntV 2]]\<rparr>}
   \<and> [''a'', ''Rank''] ! 0 \<noteq> ''Rank''
   \<and> map (\<lambda>row. row ! 0) [[IntV 3, IntV 1], [IntV 5, IntV 2]] \<noteq> [IntV 1, IntV 2]"
  by (simp add: sortby_def resolve_key_def get_colnum_def rstrip_nul_def sorted_by_key_def py_index_def
        add_ranks_def len_def py_range2_def update_column_run_def add_column_def py_insert_def upt_rec)

text \<open>
  Two further inputs. With a NaN among the keys every comparison with it is false, and
  the rows as they stand, 2 before 1, are a possible outcome of the sort. A header that
  is ``Rank'' followed by a NUL character is found by \<open>get_colnum\<close>, and the ranks are
  written into that column.
\<close>

lemma sortby_nan_unsorted:
  "Inr \<lparr>results_headers = [''p''],
         results_rows = [[FloatV (Float 2)], [FloatV NaN], [FloatV (Float 1)]]\<rparr>
     \<in> sortby \<lparr>results_headers = [''p''],
                results_rows = [[FloatV (Float 2)], [FloatV NaN], [FloatV (Float 1)]]\<rparr>
          (ByIndex 0) False
   \<and> \<not> pyval_le (FloatV (Float 2)) (FloatV (Float 1))"
proof -
  let ?rows = "[[FloatV (Float 2)], [FloatV NaN], [FloatV (Float 1)]]"
  let ?t = "\<lparr>results_headers = [''p''], results_rows = ?rows\<rparr>"
  have m: "Inr ?rows \<in> sorted_by_key 0 ?rows"
    by (simp add: sorted_by_key_def py_index_def)
  have "Inr ?t \<in> (\<lambda>outcome. case outcome of
                        Inl e \<Rightarrow> Inl e
                      | Inr rows' \<Rightarrow>
                          if False then add_ranks (?t\<lparr>results_rows := rows'\<rparr>)
                          else Inr (?t\<lparr>results_rows := rows'\<rparr>))
            ` sorted_by_key 0 ?rows"
    by (rule image_eqI [OF _ m]) simp
  then show ?thesis by (simp add: sortby_def resolve_key_def pyval_le_def)
qed

lemma sortby_rank_header_with_nul:
  "sortby \<lparr>results_headers = [''a'', ''Rank'' @ [CHR 0x00]],
            results_rows = [[IntV 5, IntV 0], [IntV 3, IntV 0]]\<rparr> (ByIndex 0) True
     = {Inr \<lparr>results_headers = [''a'', ''Rank'' @ [CHR 0x00]],
             results_rows = [[IntV 3, IntV 1], [IntV 5, IntV 2]]\<rparr>}"
  by (simp add: sortby_def resolve_key_def get_colnum_def rstrip_nul_def sorted_by_key_def py_index_def
        add_ranks_def len_def py_range2_def update_column_run_def add_column_def py_insert_def upt_rec)

lemma collect_first_Inl:
  "\<forall>x\<in>set xs. f x = Inr (g x) \<Longrightarrow> f y = Inl e \<Longrightarrow> collect (map f (xs @ y # ys)) = Inl e"
  by (induction xs) auto

lemma pick_rows_in_range:
  assumes "top_n \<le> int (length rows)"
  shows "collect (map (py_index rows) (py_range top_n)) = Inr (take (nat top_n) rows)"
proof -
  have "collect (map (py_index rows) (map int [0 ..< nat top_n]))
        = Inr (map (\<lambda>i. rows ! nat i) (map int [0 ..< nat top_n]))"
    by (rule collect_all_Inr) (use assms in \<open>auto simp: py_index_def\<close>)
  also have "map (\<lambda>i. rows ! nat i) (map int [0 ..< nat top_n]) = take (nat top_n) rows"
    using assms by (intro nth_equalityI) auto
  finally show ?thesis by (simp add: py_range_def)
qed

lemma pick_rows_past_end:
  assumes "int (length rows) < top_n"
  shows "collect (map (py_index rows) (py_range top_n)) = Inl (IndexError ''list index out of range'')"
proof -
  let ?m = "length rows"
  have lt: "?m < nat top_n" using assms by linarith
  have "[0 ..< nat top_n] = [0 ..< ?m] @ [?m ..< nat top_n]"
    using lt upt_add_eq_append [of 0 ?m "nat top_n - ?m"] by simp
  also have "[?m ..< nat top_n] = ?m # [Suc ?m ..< nat top_n]"
    using lt by (rule upt_conv_Cons)
  finally have "[0 ..< nat top_n] = [0 ..< ?m] @ ?m # [Suc ?m ..< nat top_n]" .
  then have "py_range top_n = map int [0 ..< ?m] @ int ?m # map int [Suc ?m ..< nat top_n]"
    by (simp add: py_range_def)
  moreover have "collect (map (py_index rows) (map int [0 ..< ?m] @ int ?m # map int [Suc ?m ..< nat top_n]))
      = Inl (IndexError ''list index out of range'')"
    by (rule collect_first_Inl [where g = "\<lambda>i. rows ! nat i"]) (auto simp: py_index_def)
  ultimately show ?thesis by simp
qed


text \<open>
  C1 (as amended). On a table whose rows are all as wide as the header list and not
  empty, \<open>to_tsv top_n\<close> with \<open>top_n\<close> at most the number M of rows returns the header line
  followed by the first \<open>top_n\<close> rows, cells rendered by \<open>str\<close> and joined by tabs and lines joined by newlines,
  \<open>top_n + 1\<close> joined lines in all; with \<open>top_n\<close> above M it raises IndexError.
\<close>

theorem to_tsv_top_rows:
  assumes "\<forall>r\<in>set (results_rows t). length r = length (results_headers t) \<and> r \<noteq> []"
  shows "(top_n \<le> int (len t) \<longrightarrow>
            to_tsv float_str t top_n =
              Inr (join [CHR 0x0A]
                    (join [CHR 0x09] (results_headers t)
                     # map (\<lambda>row. join [CHR 0x09] (map (py_str float_str) row)) (take (nat top_n) (results_rows t))))
            \<and> length (join [CHR 0x09] (results_headers t)
                     # map (\<lambda>row. join [CHR 0x09] (map (py_str float_str) row)) (take (nat top_n) (results_rows t)))
                = nat top_n + 1)
       \<and> (int (len t) < top_n \<longrightarrow> to_tsv float_str t top_n = Inl (IndexError ''list index out of range''))"
proof (intro conjI impI)
  assume le: "top_n \<le> int (len t)"
  let ?picked = "take (nat top_n) (results_rows t)"
  have pick: "collect (map (py_index (results_rows t)) (py_range top_n)) = Inr ?picked"
    using le by (simp add: pick_rows_in_range len_def)
  have tt: "transpose_table (transpose_table ?picked) = ?picked"
  proof (cases "?picked = []")
    case True
    have "transpose_table (transpose_table []) = ([] :: pyval list list)"
      by (simp add: transpose_table_def)
    then show ?thesis unfolding True .
  next
    case False
    then obtain r where "r \<in> set ?picked" by (cases ?picked) auto
    then have "r \<in> set (results_rows t)" by (rule in_set_takeD)
    then have pos: "0 < length (results_headers t)" using assms by fastforce
    have "\<forall>r\<in>set ?picked. length r = length (results_headers t)"
      using assms by (auto dest: in_set_takeD)
    then show ?thesis using pos by (rule transpose_table_twice)
  qed
  show "to_tsv float_str t top_n =
              Inr (join [CHR 0x0A]
                    (join [CHR 0x09] (results_headers t)
                     # map (\<lambda>row. join [CHR 0x09] (map (py_str float_str) row)) (take (nat top_n) (results_rows t))))"
    by (simp add: to_tsv_def subset_def pick LISA_Results_def tt tsv_lines_def comp_def)
  show "length (join [CHR 0x09] (results_headers t)
                     # map (\<lambda>row. join [CHR 0x09] (map (py_str float_str) row)) (take (nat top_n) (results_rows t)))
                = nat top_n + 1"
    using le by (simp add: len_def)
next
  assume "int (len t) < top_n"
  then show "to_tsv float_str t top_n = Inl (IndexError ''list index out of range'')"
    by (simp add: to_tsv_def subset_def pick_rows_past_end len_def)
qed

lemma str_int_twelve: "str_int 12 = ''12''"
  by code_simp

theorem to_tsv_top_rows_witness:
  "to_tsv (\<lambda>f. []) \<lparr>results_headers = [''factor'', ''p''],
           results_rows = [[StrV ''GATA1'', IntV 12], [StrV ''SPI1'', IntV 3]]\<rparr> 1
     = Inr (''factor'' @ [CHR 0x09] @ ''p'' @ [CHR 0x0A] @ ''GATA1'' @ [CHR 0x09] @ ''12'')
   \<and> to_tsv (\<lambda>f. []) \<lparr>results_headers = [''factor'', ''p''],
           results_rows = [[StrV ''GATA1'', IntV 12], [StrV ''SPI1'', IntV 3]]\<rparr> 3
     = Inl (IndexError ''list index out of range'')"
  using to_tsv_top_rows [where t = "\<lparr>results_headers = [''factor'', ''p''],
           results_rows = [[StrV ''GATA1'', IntV 12], [StrV ''SPI1'', IntV 3]]\<rparr>"
        and top_n = 1 and float_str = "\<lambda>f. []"]
    to_tsv_top_rows [where t = "\<lparr>results_headers = [''factor'', ''p''],
           results_rows = [[StrV ''GATA1'', IntV 12], [StrV ''SPI1'', IntV 3]]\<rparr>"
        and top_n = 3 and float_str = "\<lambda>f. []"]
  by (simp add: len_def str_int_twelve)

text \<open>
  The claim as written promises all M rows when \<open>top_n\<close> exceeds M. On a table of one row,
  \<open>to_tsv 2\<close> reads row 1 and raises.
\<close>

theorem to_tsv_overrun_counterexample:
  "to_tsv (\<lambda>f. []) \<lparr>results_headers = [''factor'', ''p''], results_rows = [[StrV ''GATA1'', IntV 12]]\<rparr> 2
     = Inl (IndexError ''list index out of range'')"
  by (simp add: to_tsv_def subset_def py_range_def py_index_def upt_rec)

section \<open>Construction, resource loading, alignment and scheduling\<close>

lemma set_cores_ok:
  "- 1 \<le> cores_arg \<Longrightarrow>
   set_cores cpu_count datasets cores_arg =
     Inr (min (if cores_arg = - 1 then cpu_count - 1 else cores_arg) (min (cpu_count - 1) datasets))"
  by (auto simp: set_cores_def Let_def)

text \<open>
  C7 (as amended). When construction passes its checks (a non-empty list of configured
  assays, 0 < datasets < 25, datasets < ANOVA datasets < 500, the ``basic'' map style
  configured) on a host with more than one logical core, a positive requested worker count
  gives the effective count min(requested, cores - 1, datasets), and the request -1
  gives min(cores - 1, datasets). Either way the effective count exceeds neither the
  dataset count nor the core count minus one, construction returns the object, and the
  advisory is appended to the log exactly when the effective count does not divide the
  dataset count.
\<close>

theorem init_effective_cores:
  assumes "assays_arg \<noteq> []" and "set assays_arg \<subseteq> set (cfg_assays cfg)"
    and "0 < cfg_num_datasets_selected cfg" and "cfg_num_datasets_selected cfg < 25"
    and "cfg_num_datasets_selected cfg < cfg_num_datasets_selected_anova cfg"
    and "cfg_num_datasets_selected_anova cfg < 500"
    and "''basic'' \<in> set (cfg_rp_map_styles cfg)"
    and "1 < cpu_count" and "cores_arg = - 1 \<or> 0 < cores_arg"
  shows "\<exists>self. init cfg cpu_count base cores_arg assays_arg = Inr self
      \<and> (0 < cores_arg \<longrightarrow>
           cores self = min cores_arg (min (cpu_count - 1) (cfg_num_datasets_selected cfg)))
      \<and> (cores_arg = - 1 \<longrightarrow> cores self = min (cpu_count - 1) (cfg_num_datasets_selected cfg))
      \<and> cores self \<le> cfg_num_datasets_selected cfg \<and> cores self \<le> cpu_count - 1
      \<and> (cfg_num_datasets_selected cfg mod cores self \<noteq> 0 \<longrightarrow>
           log self = log base @ [cores_warning (cores self) (cfg_num_datasets_selected cfg)])
      \<and> (cfg_num_datasets_selected cfg mod cores self = 0 \<longrightarrow> log self = log base)"
proof -
  let ?d = "cfg_num_datasets_selected cfg"
  define c where "c = min (if cores_arg = - 1 then cpu_count - 1 else cores_arg) (min (cpu_count - 1) ?d)"
  have sc: "set_cores cpu_count ?d cores_arg = Inr c"
    unfolding c_def using assms(9) by (intro set_cores_ok) auto
  have ne: "c \<noteq> 0" and bounds: "c \<le> ?d" "c \<le> cpu_count - 1"
    using assms(3,8,9) by (auto simp: c_def)
  have valid: "list_all (\<lambda>a. a \<in> set (cfg_assays cfg)) assays_arg"
    using assms(2) by (auto simp: list_all_iff)
  let ?self = "base
        \<lparr>log := (if ?d mod c \<noteq> 0 then log base @ [cores_warning c ?d] else log base),
         num_datasets_selected := ?d,
         num_datasets_selected_anova := cfg_num_datasets_selected_anova cfg,
         cores := c,
         schedule_assays := sort (remdups assays_arg),
         rp_map := RpName ''basic'',
         generate_rp_matrix := False\<rparr>"
  have run: "init cfg cpu_count base cores_arg assays_arg = Inr ?self"
    using assms(1,3-7) valid ne by (simp add: init_def Let_def sc)
  have c1: "0 < cores_arg \<longrightarrow> c = min cores_arg (min (cpu_count - 1) ?d)"
    and c2: "cores_arg = - 1 \<longrightarrow> c = min (cpu_count - 1) ?d"
    by (auto simp: c_def)
  show ?thesis
    using run c1 c2 bounds by (intro exI [of _ ?self]) simp
qed

text \<open>
  C2. What the code does where the claim expects the fallback: with the map named but not
  present locally and the download raising any exception, \<open>_load_rp_map\<close> ends in
  NameError for the unbound name \<open>error\<close>. No warning is logged and the ``basic'' map is
  never tried.
\<close>

theorem load_rp_map_fetch_failure:
  "load_rp_map (res\<lparr>fetch_from_cistrome := \<lambda>url path files. Inl err\<rparr>) []
      (self\<lparr>rp_map := RpName name\<rparr>) = Inl (NameError ''error'')"
  by (simp add: load_rp_map_def module_names_def)


lemma map_of_dict_set: "map_of (dict_set d k v) = (map_of d)(k \<mapsto> v)"
  by (induction d) auto

lemma map_of_fold_dict_set:
  "map_of (fold (\<lambda>p d. dict_set d (fst p) (snd p)) ps acc) = map_of acc ++ map_of (rev ps)"
proof (induction ps arbitrary: acc)
  case Nil
  then show ?case by simp
next
  case (Cons p ps)
  have "(map_of acc)(fst p \<mapsto> snd p) ++ map_of (rev ps) = map_of acc ++ map_of (rev ps @ [p])"
    by (rule ext) (auto simp: map_add_def map_of_append split: option.splits)
  then show ?case
    by (simp only: fold_simps Cons.IH map_of_dict_set rev.simps)
qed

lemma map_of_py_dict: "map_of (py_dict ps) = map_of (rev ps)"
  by (simp add: py_dict_def map_of_fold_dict_set)

lemma py_dict_lookup:
  assumes "l \<in> location ` set gs"
  shows "\<exists>g\<in>set gs. location g = l
           \<and> map_of (py_dict (zip (map location gs) (map symbol gs))) l = Some (symbol g)"
proof -
  let ?ps = "zip (map location gs) (map symbol gs)"
  have ps: "?ps = map (\<lambda>g. (location g, symbol g)) gs"
    by (induction gs) auto
  have "l \<in> fst ` set (rev ?ps)" using assms by (force simp: ps)
  then obtain v where v: "map_of (rev ?ps) l = Some v"
    by (metis domD dom_map_of_conv_image_fst)
  then have "(l, v) \<in> set ?ps" by (auto dest: map_of_SomeD)
  then obtain g where "g \<in> set gs" "location g = l" "symbol g = v"
    by (auto simp: ps)
  then show ?thesis using v by (auto simp: map_of_py_dict)
qed

lemma masked_rows: "map fst (filter snd (zip xs (map P xs))) = filter P xs"
  by (induction xs) auto

lemma get_factor_gene_mask_total:
  fixes self :: "'m lisa" and matches :: "string \<Rightarrow> gene \<Rightarrow> bool"
  defines "gs \<equiv> match_user_provided_genes matches (all_genes self) (factor_names self)"
  defines "d \<equiv> py_dict (zip (map location gs) (map symbol gs))"
  defines "msk \<equiv> map (\<lambda>loc. loc \<in> location ` set gs) (rp_map_locs self)"
  defines "ks \<equiv> map (\<lambda>l. the (map_of d l)) (filter (\<lambda>loc. loc \<in> location ` set gs) (rp_map_locs self))"
  shows "get_factor_gene_mask matches self
           = Inr ((msk, ks), self\<lparr>factor_gene_mask := Some (msk, ks)\<rparr>)"
proof -
  let ?sel = "filter (\<lambda>loc. loc \<in> location ` set gs) (rp_map_locs self)"
  have "\<forall>l\<in>set ?sel. dict_get d l = Inr (the (map_of d l))"
  proof
    fix l assume "l \<in> set ?sel"
    then have "l \<in> location ` set gs" by simp
    from py_dict_lookup [OF this] show "dict_get d l = Inr (the (map_of d l))"
      by (auto simp: dict_get_def d_def)
  qed
  then have c: "collect (map (dict_get d) ?sel) = Inr ks"
    unfolding ks_def by (rule collect_all_Inr)
  have sel: "map fst (filter snd (zip (rp_map_locs self) msk)) = ?sel"
    unfolding msk_def by (rule masked_rows)
  have img: "set (map location gs) = location ` set gs" by simp
  show ?thesis
    unfolding get_factor_gene_mask_def Let_def gs_def [symmetric] d_def [symmetric] img
      msk_def [symmetric] sel c
    by simp
qed

lemma find_SomeD: "find P xs = Some x \<Longrightarrow> P x \<and> x \<in> set xs"
  by (induction xs) (auto split: if_splits)

lemma matched_in_catalog:
  "g \<in> set (match_user_provided_genes matches catalog names) \<Longrightarrow>
   g \<in> set catalog \<and> (\<exists>n\<in>set names. matches n g)"
  by (auto simp: match_user_provided_genes_def split: option.splits dest: find_SomeD [OF sym])

lemma unmatched_names_dropped:
  "match_user_provided_genes matches catalog names
     = match_user_provided_genes matches catalog (filter (\<lambda>n. \<exists>g\<in>set catalog. matches n g) names)"
proof (induction names)
  case Nil
  then show ?case by (simp add: match_user_provided_genes_def)
next
  case (Cons n names)
  show ?case
  proof (cases "\<exists>g\<in>set catalog. matches n g")
    case True
    then show ?thesis using Cons.IH by (simp add: match_user_provided_genes_def)
  next
    case False
    then have "find (matches n) catalog = None" by (simp add: find_None_iff)
    then show ?thesis using Cons.IH False by (simp add: match_user_provided_genes_def)
  qed
qed

text \<open>
  C5. \<open>_get_factor_gene_mask\<close> always returns. The mask has one entry per reference row,
  true exactly at the rows whose location is the location of a matched factor gene; the
  keys are one symbol per true position, in row order, each the symbol of a matched gene
  at that row's location; and the matched genes are canonical genes, the names that match
  none of them contributing nothing.
\<close>

theorem factor_gene_mask_alignment:
  "\<exists>msk ks.
      get_factor_gene_mask matches self = Inr ((msk, ks), self\<lparr>factor_gene_mask := Some (msk, ks)\<rparr>)
    \<and> length msk = length (rp_map_locs self)
    \<and> (\<forall>i<length (rp_map_locs self).
          msk ! i = (rp_map_locs self ! i
                        \<in> location ` set (match_user_provided_genes matches (all_genes self) (factor_names self))))
    \<and> length ks = length (filter (\<lambda>b. b) msk)
    \<and> (\<forall>k<length ks.
          \<exists>g\<in>set (match_user_provided_genes matches (all_genes self) (factor_names self)).
             location g = map fst (filter snd (zip (rp_map_locs self) msk)) ! k \<and> symbol g = ks ! k)
    \<and> set (match_user_provided_genes matches (all_genes self) (factor_names self)) \<subseteq> set (all_genes self)
    \<and> match_user_provided_genes matches (all_genes self) (factor_names self)
        = match_user_provided_genes matches (all_genes self)
            (filter (\<lambda>n. \<exists>g\<in>set (all_genes self). matches n g) (factor_names self))"
proof -
  define gs where "gs = match_user_provided_genes matches (all_genes self) (factor_names self)"
  define d where "d = py_dict (zip (map location gs) (map symbol gs))"
  define msk where "msk = map (\<lambda>loc. loc \<in> location ` set gs) (rp_map_locs self)"
  let ?sel = "filter (\<lambda>loc. loc \<in> location ` set gs) (rp_map_locs self)"
  define ks where "ks = map (\<lambda>l. the (map_of d l)) ?sel"
  have run: "get_factor_gene_mask matches self
           = Inr ((msk, ks), self\<lparr>factor_gene_mask := Some (msk, ks)\<rparr>)"
    unfolding msk_def ks_def d_def gs_def by (rule get_factor_gene_mask_total)
  have sel: "map fst (filter snd (zip (rp_map_locs self) msk)) = ?sel"
    unfolding msk_def by (rule masked_rows)
  have len: "length ks = length (filter (\<lambda>b. b) msk)"
    by (simp add: ks_def msk_def filter_map comp_def)
  have key: "\<forall>k<length ks. \<exists>g\<in>set gs. location g = ?sel ! k \<and> symbol g = ks ! k"
  proof (intro allI impI)
    fix k assume k: "k < length ks"
    then have "?sel ! k \<in> set ?sel" by (intro nth_mem) (simp add: ks_def)
    then have "?sel ! k \<in> location ` set gs" by simp
    from py_dict_lookup [OF this] show "\<exists>g\<in>set gs. location g = ?sel ! k \<and> symbol g = ks ! k"
      using k by (auto simp: ks_def d_def)
  qed
  have sub: "set gs \<subseteq> set (all_genes self)"
    unfolding gs_def by (auto dest: matched_in_catalog)
  have drop: "gs = match_user_provided_genes matches (all_genes self)
            (filter (\<lambda>n. \<exists>g\<in>set (all_genes self). matches n g) (factor_names self))"
    unfolding gs_def by (rule unmatched_names_dropped)
  have m: "\<forall>i<length (rp_map_locs self). msk ! i = (rp_map_locs self ! i \<in> location ` set gs)"
    by (simp add: msk_def)
  have lm: "length msk = length (rp_map_locs self)" by (simp add: msk_def)
  have key': "\<forall>k<length ks. \<exists>g\<in>set gs.
      location g = map fst (filter snd (zip (rp_map_locs self) msk)) ! k \<and> symbol g = ks ! k"
    using key unfolding sel .
  show ?thesis
    unfolding gs_def [symmetric]
    using run lm m len key' sub drop
    by (intro exI [of _ msk] exI [of _ ks]) blast
qed

lemma initialize_assays_invalid:
  assumes "schedule_assays self = pre @ a # post"
    and "set pre \<subseteq> {''Direct'', ''DNase'', ''H3K27ac''}" and "a \<notin> {''Direct'', ''DNase'', ''H3K27ac''}"
  shows "initialize_assays matches self = Inl (AssertionError (''Invalid assay encountered: '' @ a))"
proof -
  have loop: "\<And>s. add_scheduled s (pre @ a # post) = Inl (AssertionError (''Invalid assay encountered: '' @ a))"
    using assms(2,3) by (induction pre) auto
  show ?thesis
  proof (cases "factor_gene_mask self")
    case None
    then show ?thesis
      using assms(1) loop by (simp add: initialize_assays_def get_factor_gene_mask_total)
  next
    case (Some mk)
    then show ?thesis using assms(1) loop by (simp add: initialize_assays_def)
  qed
qed


text \<open>
  C6 (as amended). A non-empty requested assay list with a kind outside the configured
  list makes construction fail with an assertion error. The error is the same for every
  such request, so it does not name the offending value; and as no object exists, no
  assay is set up or run. The check inside \<open>_initialize_assays\<close>, which a kind reaches only
  when the configuration admits it, is the one that names the value: a schedule whose
  first kind other than Direct, DNase and H3K27ac is \<open>a\<close> fails with
  ``Invalid assay encountered: \<open>a\<close>''.
\<close>

theorem invalid_assay_rejected:
  "(assays_arg \<noteq> [] \<and> \<not> set assays_arg \<subseteq> set (cfg_assays cfg) \<longrightarrow>
      (\<exists>msg. init cfg cpu_count base cores_arg assays_arg = Inl (AssertionError msg))
      \<and> (\<forall>other. other \<noteq> [] \<and> \<not> set other \<subseteq> set (cfg_assays cfg) \<longrightarrow>
             init cfg cpu_count base cores_arg other = init cfg cpu_count base cores_arg assays_arg))
   \<and> (schedule_assays self = pre @ a # post \<and> set pre \<subseteq> {''Direct'', ''DNase'', ''H3K27ac''}
        \<and> a \<notin> {''Direct'', ''DNase'', ''H3K27ac''} \<longrightarrow>
      initialize_assays matches self = Inl (AssertionError (''Invalid assay encountered: '' @ a)))"
proof -
  have fixed: "\<And>req. req \<noteq> [] \<and> \<not> set req \<subseteq> set (cfg_assays cfg) \<Longrightarrow>
      init cfg cpu_count base cores_arg req = Inl (AssertionError invalid_assay_message)"
    by (auto simp: init_def list_all_iff)
  have first: "assays_arg \<noteq> [] \<and> \<not> set assays_arg \<subseteq> set (cfg_assays cfg) \<longrightarrow>
      (\<exists>msg. init cfg cpu_count base cores_arg assays_arg = Inl (AssertionError msg))
      \<and> (\<forall>other. other \<noteq> [] \<and> \<not> set other \<subseteq> set (cfg_assays cfg) \<longrightarrow>
             init cfg cpu_count base cores_arg other = init cfg cpu_count base cores_arg assays_arg)"
    using fixed by simp
  have second: "schedule_assays self = pre @ a # post \<and> set pre \<subseteq> {''Direct'', ''DNase'', ''H3K27ac''}
        \<and> a \<notin> {''Direct'', ''DNase'', ''H3K27ac''} \<longrightarrow>
      initialize_assays matches self = Inl (AssertionError (''Invalid assay encountered: '' @ a))"
  proof
    assume "schedule_assays self = pre @ a # post \<and> set pre \<subseteq> {''Direct'', ''DNase'', ''H3K27ac''}
        \<and> a \<notin> {''Direct'', ''DNase'', ''H3K27ac''}"
    then show "initialize_assays matches self = Inl (AssertionError (''Invalid assay encountered: '' @ a))"
      by (intro initialize_assays_invalid) auto
  qed
  from first second show ?thesis by (rule conjI)
qed

theorem invalid_assay_rejected_witness:
  "(\<exists>msg. init example_config 4 example_base 1 [''Direct'', ''Unknown''] = Inl (AssertionError msg))
   \<and> init example_config 4 example_base 1 [''Bogus'']
       = init example_config 4 example_base 1 [''Direct'', ''Unknown'']
   \<and> initialize_assays by_symbol (example_base\<lparr>schedule_assays := [''Direct'', ''Unknown'']\<rparr>)
       = Inl (AssertionError ''Invalid assay encountered: Unknown'')"
proof -
  note th = invalid_assay_rejected [of "[''Direct'', ''Unknown'']" example_config 4 example_base 1
      "example_base\<lparr>schedule_assays := [''Direct'', ''Unknown'']\<rparr>" "[''Direct'']" "''Unknown''" "[]" by_symbol]
  have bad: "[''Direct'', ''Unknown''] \<noteq> [] \<and> \<not> set [''Direct'', ''Unknown''] \<subseteq> set (cfg_assays example_config)"
    by (simp add: example_config_def)
  have bogus: "[''Bogus''] \<noteq> [] \<and> \<not> set [''Bogus''] \<subseteq> set (cfg_assays example_config)"
    by (simp add: example_config_def)
  have sched: "schedule_assays (example_base\<lparr>schedule_assays := [''Direct'', ''Unknown'']\<rparr>)
                 = [''Direct''] @ ''Unknown'' # []
        \<and> set [''Direct''] \<subseteq> {''Direct'', ''DNase'', ''H3K27ac''}
        \<and> ''Unknown'' \<notin> {''Direct'', ''DNase'', ''H3K27ac''}"
    by simp
  from th [THEN conjunct1, rule_format, OF bad]
  have a: "\<exists>msg. init example_config 4 example_base 1 [''Direct'', ''Unknown''] = Inl (AssertionError msg)"
    and b: "\<forall>other. other \<noteq> [] \<and> \<not> set other \<subseteq> set (cfg_assays example_config) \<longrightarrow>
             init example_config 4 example_base 1 other
               = init example_config 4 example_base 1 [''Direct'', ''Unknown'']"
    by blast+
  from b bogus have c: "init example_config 4 example_base 1 [''Bogus'']
       = init example_config 4 example_base 1 [''Direct'', ''Unknown'']"
    by blast
  from th [THEN conjunct2, rule_format, OF sched]
  have d: "initialize_assays by_symbol (example_base\<lparr>schedule_assays := [''Direct'', ''Unknown'']\<rparr>)
       = Inl (AssertionError ''Invalid assay encountered: Unknown'')"
    by simp
  from a c d show ?thesis by (intro conjI)
qed

text \<open>
  The claim as written has the error name the offending value. For the request Direct,
  Unknown the message is the fixed text, which has no capital U in it and so cannot
  contain ``Unknown''.
\<close>

theorem invalid_assay_message_counterexample:
  "init example_config 4 example_base 1 [''Direct'', ''Unknown'']
     = Inl (AssertionError invalid_assay_message)
   \<and> CHR ''U'' \<notin> set invalid_assay_message"
  by (simp add: init_def example_config_def invalid_assay_message_def)

theorem init_effective_cores_witness:
  "\<exists>self. init example_config 4 example_base 7 [''Direct''] = Inr self
      \<and> cores self = 3 \<and> log self = [cores_warning 3 10]"
  using init_effective_cores [of "[''Direct'']" example_config 4 7 example_base]
  by (auto simp: example_config_def example_base_def)

text \<open>
  The claim as written takes the minimum over the requested count for every request. The
  request -1 on a host of four cores with ten datasets gives three workers, not the
  minimum -1.
\<close>

theorem all_cores_request_counterexample:
  "init example_config 4 example_base (- 1) [''Direct'']
     = Inr (example_base
             \<lparr>log := [cores_warning 3 10], num_datasets_selected := 10,
              num_datasets_selected_anova := 200, cores := 3,
              schedule_assays := [''Direct''], rp_map := RpName ''basic'',
              generate_rp_matrix := False\<rparr>)
   \<and> (3 :: int) \<noteq> min (- 1) (min (4 - 1) 10)"
  by (simp add: init_def set_cores_def example_config_def example_base_def)

theorem factor_gene_mask_alignment_witness:
  "\<exists>msk ks. get_factor_gene_mask by_symbol example_base
        = Inr ((msk, ks), example_base\<lparr>factor_gene_mask := Some (msk, ks)\<rparr>)
      \<and> msk = [True, False, False, True] \<and> ks = [''GATA1'', ''SPI1'']"
proof -
  have run: "get_factor_gene_mask by_symbol example_base
        = Inr (([True, False, False, True], [''GATA1'', ''SPI1'']),
               example_base\<lparr>factor_gene_mask := Some ([True, False, False, True], [''GATA1'', ''SPI1''])\<rparr>)"
    by (simp add: get_factor_gene_mask_def match_user_provided_genes_def example_base_def
          by_symbol_def py_dict_def dict_get_def Let_def)
  show ?thesis
    using factor_gene_mask_alignment [of by_symbol example_base] run by auto
qed

section \<open>Sparse assembly\<close>




lemma csc_column_error:
  assumes "length idx \<noteq> length vals \<or> (\<exists>i\<in>set idx. i < 0 \<or> int L \<le> i)"
  shows "csc_matrix np vals idx (replicate (length vals) 0) (L, 1) = Inl ValueError"
  using assms by (auto simp: csc_matrix_def list_ex_iff)

lemma csc_column_cases:
  "csc_matrix np vals idx (replicate (length vals) 0) (L, 1) = Inl ValueError
   \<or> (\<exists>m. csc_matrix np vals idx (replicate (length vals) 0) (L, 1) = Inr m)"
  by (auto simp: csc_matrix_def)

lemma collect_Inl:
  assumes "\<forall>r\<in>set rs. r = Inl e \<or> (\<exists>x. r = Inr x)" and "Inl e \<in> set rs"
  shows "collect rs = Inl e"
  using assms
proof (induction rs)
  case Nil
  then show ?case by simp
next
  case (Cons r rs)
  show ?case
  proof (cases r)
    case (Inl e')
    then show ?thesis using Cons.prems by auto
  next
    case (Inr x)
    then have "Inl e \<in> set rs" using Cons.prems by auto
    then have "collect rs = Inl e" using Cons by auto
    then show ?thesis using Inr by simp
  qed
qed

text \<open>
  C4. For ragged input with as many index columns as value columns, a column whose index
  and value sequences differ in length, or which holds an index below 0 or not below
  \<open>col_length\<close>, makes the assembler fail with SciPy's ValueError (the shape error of the
  specification), whatever the arithmetic of the elements.
\<close>

theorem ragged_bad_input_raises:
  assumes "length indices = length values" and "j < length indices"
    and "length (indices ! j) \<noteq> length (values ! j)
         \<or> (\<exists>i\<in>set (indices ! j). i < 0 \<or> int col_length \<le> i)"
  shows "ragged_array_to_sparse_matrix np indices values col_length = Inl ValueError"
proof -
  define f where "f = (\<lambda>p. csc_matrix np (snd p) (fst p) (replicate (length (snd p)) 0) (col_length, 1))"
  let ?rs = "map f (zip indices values)"
  have all: "\<forall>r\<in>set ?rs. r = Inl ValueError \<or> (\<exists>x. r = Inr x)"
  proof
    fix r assume "r \<in> set ?rs"
    then obtain p where "r = f p" by auto
    then show "r = Inl ValueError \<or> (\<exists>x. r = Inr x)"
      unfolding f_def using csc_column_cases [of np "snd p" "fst p" col_length] by simp
  qed
  have j: "j < length (zip indices values)" using assms(1,2) by simp
  have "f (indices ! j, values ! j) = Inl ValueError"
    unfolding f_def fst_conv snd_conv by (rule csc_column_error [OF assms(3)])
  moreover have "?rs ! j = f (indices ! j, values ! j)" using j by simp
  moreover have "?rs ! j \<in> set ?rs" using j by (intro nth_mem) simp
  ultimately have "Inl ValueError \<in> set ?rs" by simp
  with all have "collect ?rs = Inl ValueError" by (rule collect_Inl)
  then show ?thesis by (simp add: ragged_array_to_sparse_matrix_def f_def)
qed

theorem ragged_bad_input_raises_witness:
  "ragged_array_to_sparse_matrix small_int_arith [[0], [0, 5]] [[1], [2, 3]] 4 = Inl ValueError
   \<and> ragged_array_to_sparse_matrix small_int_arith [[0], [- 1, 2]] [[1], [2, 3]] 4 = Inl ValueError
   \<and> ragged_array_to_sparse_matrix small_int_arith [[0], [1]] [[1], [2, 3]] 4 = Inl ValueError"
proof -
  have a: "ragged_array_to_sparse_matrix small_int_arith [[0], [0, 5]] [[1], [2, 3]] 4 = Inl ValueError"
    by (rule ragged_bad_input_raises [where j = 1]) simp_all
  have b: "ragged_array_to_sparse_matrix small_int_arith [[0], [- 1, 2]] [[1], [2, 3]] 4 = Inl ValueError"
    by (rule ragged_bad_input_raises [where j = 1]) simp_all
  have c: "ragged_array_to_sparse_matrix small_int_arith [[0], [1]] [[1], [2, 3]] 4 = Inl ValueError"
    by (rule ragged_bad_input_raises [where j = 1]) simp_all
  from a b c show ?thesis by (intro conjI)
qed









end
